theory Spec2Isabelle
  imports Complex_Main "HOL-Library.Sublist" "HOL-Library.List_Lexorder" "HOL-Library.Char_ord"
    "HOL-Library.AList"
begin

section \<open>Python values and exceptions\<close>

text \<open>
  The exceptions the modelled functions can raise. \<open>HostError\<close> is whatever a call into
  the host application raises, \<open>JSONError\<close> whatever \<open>json.dumps\<close> or \<open>json.loads\<close>
  raises. A function that mutates host objects before it raises returns the state it
  reached together with the exception.
\<close>

datatype py_error =
    KeyError
  | TypeError
  | RuntimeError
  | AttributeError
  | UnboundLocalError
  | JSONError
  | HostError

section \<open>Comma separated plug values (\<open>lib.append_to_csv_plug\<close>)\<close>

text \<open>
  \<open>str.split(',')\<close>: the pieces between commas; the empty string gives one empty piece.
\<close>

fun split_comma :: "string \<Rightarrow> string list" where
  "split_comma [] = [Nil]"
| "split_comma (c # cs) =
     (if c = CHR '','' then [] # split_comma cs
      else (let r = split_comma cs in (c # hd r) # tl r))"

text \<open>\<open>",".join(value_list)\<close>.\<close>

fun join_comma :: "string list \<Rightarrow> string" where
  "join_comma [] = []"
| "join_comma [x] = x"
| "join_comma (x # y # ys) = x @ CHR '','' # join_comma (y # ys)"

text \<open>
  The plug is a string plug; the function reads its value and writes one back, so the
  model takes the plug's value and returns the value it is set to.
\<close>

definition append_to_csv_plug :: "string \<Rightarrow> string \<Rightarrow> bool \<Rightarrow> string" where
  "append_to_csv_plug plug value_to_add allow_duplicates =
     (let current_value = plug;
          value_list = split_comma current_value;
          value_list' =
            (if allow_duplicates then value_list @ [value_to_add]
             else if value_to_add \<notin> set value_list then value_list @ [value_to_add]
             else value_list)
      in join_comma value_list')"

section \<open>Scene traversal (\<open>lib.traverse_scene\<close>)\<close>

text \<open>\<open>path.rstrip('/')\<close> removes every trailing slash.\<close>

definition rstrip_slash :: "string \<Rightarrow> string" where
  "rstrip_slash s = rev (dropWhile (\<lambda>c. c = CHR ''/'') (rev s))"

text \<open>The f-string \<open>f"{path.rstrip('/')}/{child_name}"\<close>.\<close>

definition child_path :: "string \<Rightarrow> string \<Rightarrow> string" where
  "child_path path child_name = rstrip_slash path @ CHR ''/'' # child_name"

text \<open>
  The inner \<open>for\<close> loop: the paths put on the queue for one dequeued path. The scene plug
  is the host's; of it the traversal uses \<open>childNames\<close> only, which is a parameter here.
\<close>

definition enqueue_children :: "(string \<Rightarrow> string list) \<Rightarrow> string \<Rightarrow> string list" where
  "enqueue_children childNames path = map (child_path path) (childNames path)"

text \<open>
  The \<open>while not queue.empty()\<close> loop. The queue is a list, dequeued at the head and
  enqueued at the end; the result is the list of yielded paths. The loop need not end
  (a host whose \<open>childNames\<close> never runs dry), so it runs on fuel, one unit for each
  dequeued path; \<open>None\<close> says that the fuel ran out.
\<close>

fun traverse_queue ::
  "nat \<Rightarrow> (string \<Rightarrow> string list) \<Rightarrow> string list \<Rightarrow> string list option" where
  "traverse_queue fuel childNames [] = Some []"
| "traverse_queue 0 childNames (path # queue) = None"
| "traverse_queue (Suc fuel) childNames (path # queue) =
     map_option ((#) path)
       (traverse_queue fuel childNames (queue @ enqueue_children childNames path))"

definition traverse_scene ::
  "nat \<Rightarrow> (string \<Rightarrow> string list) \<Rightarrow> string \<Rightarrow> string list option" where
  "traverse_scene fuel childNames root_path = traverse_queue fuel childNames [root_path]"

text \<open>
  What breadth first means, in the words of the property: the paths at depth \<open>0\<close> are the
  root path alone, the paths at depth \<open>d + 1\<close> are the child paths of the paths at depth \<open>d\<close>,
  parent after parent, and a breadth-first listing gives depth after depth.
\<close>

definition next_level :: "(string \<Rightarrow> string list) \<Rightarrow> string list \<Rightarrow> string list" where
  "next_level childNames paths = concat (map (enqueue_children childNames) paths)"

fun scene_level :: "(string \<Rightarrow> string list) \<Rightarrow> string \<Rightarrow> nat \<Rightarrow> string list" where
  "scene_level childNames root_path 0 = [root_path]"
| "scene_level childNames root_path (Suc d) =
     next_level childNames (scene_level childNames root_path d)"

definition breadth_first :: "(string \<Rightarrow> string list) \<Rightarrow> string \<Rightarrow> nat \<Rightarrow> string list" where
  "breadth_first childNames root_path depth =
     concat (map (scene_level childNames root_path) [0..<depth])"

section \<open>Name generation (\<open>lib.get_next_valid_name\<close>)\<close>

text \<open>The character classes \<open>[a-zA-Z0-9_]\<close>, \<open>\d\<close> and \<open>#\<close>, and the line feed.\<close>

definition is_word_char :: "char \<Rightarrow> bool" where
  "is_word_char c =
     (let n = (of_char c :: nat)
      in (97 \<le> n \<and> n \<le> 122) \<or> (65 \<le> n \<and> n \<le> 90) \<or> (48 \<le> n \<and> n \<le> 57) \<or> n = 95)"

definition is_digit :: "char \<Rightarrow> bool" where
  "is_digit c = (let n = (of_char c :: nat) in 48 \<le> n \<and> n \<le> 57)"

definition is_hash :: "char \<Rightarrow> bool" where
  "is_hash c = (c = CHR ''#'')"

definition newline :: char where
  "newline = CHR 0x0A"

text \<open>
  \<open>re.search(r'([a-zA-Z0-9_]*)(#+)([a-zA-Z0-9_]*)', template)\<close>. At one start position
  the first group takes the longest run of word characters; giving characters back
  cannot help, since the next character must be \<open>#\<close>, which is no word character. Then
  comes the longest run of \<open>#\<close>, which must not be empty, then the longest run of word
  characters. \<open>search\<close> tries the start positions from the left.
\<close>

definition match_template_at :: "string \<Rightarrow> (string \<times> string \<times> string) option" where
  "match_template_at s =
     (let head = takeWhile is_word_char s;
          rest = dropWhile is_word_char s;
          padding = takeWhile is_hash rest;
          tail = takeWhile is_word_char (dropWhile is_hash rest)
      in if padding = [] then None else Some (head, padding, tail))"

fun search_template :: "string \<Rightarrow> (string \<times> string \<times> string) option" where
  "search_template [] = match_template_at []"
| "search_template (c # cs) =
     (case match_template_at (c # cs) of
        Some groups \<Rightarrow> Some groups
      | None \<Rightarrow> search_template cs)"

text \<open>
  \<open>re.match(f"{head}.*{tail}", name)\<close>: \<open>head\<close> and \<open>tail\<close> are word characters, which
  stand for themselves in a pattern. The name starts with \<open>head\<close>; after any characters
  other than a line feed comes \<open>tail\<close>; the match need not reach the end of the name.
\<close>

fun dot_star_then :: "string \<Rightarrow> string \<Rightarrow> bool" where
  "dot_star_then tail [] = (tail = [])"
| "dot_star_then tail (c # cs) =
     (prefix tail (c # cs) \<or> (c \<noteq> newline \<and> dot_star_then tail cs))"

definition match_name :: "string \<Rightarrow> string \<Rightarrow> string \<Rightarrow> bool" where
  "match_name head tail name =
     (prefix head name \<and> dot_star_then tail (drop (length head) name))"

text \<open>
  Group 2 of \<open>re.search(r'(.*)_*(\d+)(.*)', last_name)\<close>. The first group is greedy: it
  takes the rest of the line and gives back one character at a time until \<open>_*(\d+)\<close>
  matches, which first happens at the last digit of the line, with \<open>_*\<close> empty. Group 2
  is therefore that single digit. A line without a digit has no match from any of its
  positions, and the search moves on.
\<close>

fun search_number :: "string \<Rightarrow> string option" where
  "search_number [] = None"
| "search_number (c # cs) =
     (case filter is_digit (takeWhile (\<lambda>x. x \<noteq> newline) (c # cs)) of
        [] \<Rightarrow> search_number cs
      | d # ds \<Rightarrow> Some [last (d # ds)])"

text \<open>\<open>int\<close> of a string of digits, \<open>str\<close> of a natural number, and \<open>str.zfill\<close>.\<close>

definition int_digits :: "string \<Rightarrow> nat" where
  "int_digits ds = foldl (\<lambda>acc c. 10 * acc + (of_char c - 48)) 0 ds"

definition digit_char :: "nat \<Rightarrow> char" where
  "digit_char d = char_of (48 + d)"

fun str_nat :: "nat \<Rightarrow> string" where
  "str_nat n =
     (if n < 10 then [digit_char n] else str_nat (n div 10) @ [digit_char (n mod 10)])"

declare str_nat.simps [simp del]

definition zfill :: "nat \<Rightarrow> string \<Rightarrow> string" where
  "zfill width s = replicate (width - length s) (CHR ''0'') @ s"

text \<open>
  The script node is used through the names of its children only. Without a \<open>#\<close> in the
  template the function returns the template. With one, \<open>next_number\<close> is bound when no
  child matches (to 1) or when the greatest matching name holds a digit; otherwise
  reading it raises \<open>UnboundLocalError\<close>. \<open>sort(reverse=True)\<close> orders the names from
  the greatest down, by code points.
\<close>

definition get_next_valid_name :: "string \<Rightarrow> string list \<Rightarrow> py_error + string" where
  "get_next_valid_name template children_names =
     (case search_template template of
        None \<Rightarrow> Inr template
      | Some (head, padding, tail) \<Rightarrow>
          (let pad_len = length padding;
               ex_names = rev (sort (filter (match_name head tail) children_names))
           in case (case ex_names of
                      [] \<Rightarrow> Some 1
                    | last_name # _ \<Rightarrow>
                        map_option (\<lambda>g. int_digits g + 1) (search_number last_name)) of
                None \<Rightarrow> Inl UnboundLocalError
              | Some next_number \<Rightarrow>
                  Inr (head @ zfill pad_len (str_nat next_number) @ tail)))"

text \<open>A small scene: \<open>/world/geo\<close> and \<open>/cameras\<close> under the root.\<close>

definition sample_childNames :: "string \<Rightarrow> string list" where
  "sample_childNames path =
     (if path = ''/'' then [''world'', ''cameras'']
      else if path = ''/world'' then [''geo'']
      else [])"

section \<open>Host objects: values, plugs, nodes and the script\<close>

text \<open>
  The Python values that reach the modelled functions: strings, booleans, floats,
  integers, \<open>None\<close>, dicts with string keys, lists and tuples. A list never equals a
  tuple. Lists and tuples are values of types that \<open>imprint\<close> does not support.
\<close>

datatype pyval =
    PStr string
  | PBool bool
  | PFloat real
  | PInt int
  | PNone
  | PDict "(string \<times> pyval) list"
  | PList "pyval list"
  | PTuple "pyval list"

text \<open>
  A value plug: its class with the value it holds, and the \<open>layout:section\<close> entry of its
  metadata. A plug made with a default value holds that value.
\<close>

datatype plug_data = StringPlug string | BoolPlug bool | FloatPlug real | IntPlug int

record plug =
  plug_data :: plug_data
  layout_section :: "string option"

definition getValue :: "plug \<Rightarrow> pyval" where
  "getValue p =
     (case plug_data p of
        StringPlug s \<Rightarrow> PStr s
      | BoolPlug b \<Rightarrow> PBool b
      | FloatPlug x \<Rightarrow> PFloat x
      | IntPlug i \<Rightarrow> PInt i)"

text \<open>
  A node: its name, its full name, the value plugs reached as \<open>node[name]\<close>, and the
  \<open>user\<close> compound with its children by name, when the node has one. The script node has
  child nodes, a \<open>user\<close> compound and the \<open>fileName\<close> plug.
\<close>

record node =
  node_name :: string
  node_fullName :: string
  node_plugs :: "string \<rightharpoonup> plug"
  node_user :: "(string \<rightharpoonup> plug) option"

record script =
  script_children :: "node list"
  script_user :: "(string \<rightharpoonup> plug) option"
  script_fileName :: string

text \<open>
  What the functions call outside this repository, as parameters: the two container ids
  (constants of the pipeline framework), \<open>setValue\<close> of a plug (\<open>None\<close> when the host
  raises), the built-in \<open>str\<close>, \<open>json.dumps\<close> and \<open>json.loads\<close> (\<open>None\<close> when they raise),
  the framework's \<open>get_representation_path\<close>, \<open>os.path.exists\<close>, \<open>ScriptNode.load\<close>, the
  one statement of \<open>update_project_root_directory\<close> (a plug of the script's variables set
  to the framework's \<open>work_root\<close>), and the framework's \<open>get_current_context\<close> (\<open>None\<close>
  when it raises). \<open>ScriptNode.load\<close> and \<open>update_project_root_directory\<close> give the
  script they leave behind and the exception, if one was raised.
\<close>

record host =
  AYON_CONTAINER_ID :: string
  AVALON_CONTAINER_ID :: string
  setValue :: "plug \<Rightarrow> pyval \<Rightarrow> plug option"
  py_str :: "pyval \<Rightarrow> string"
  json_dumps :: "pyval \<Rightarrow> string option"
  json_loads :: "pyval \<Rightarrow> pyval option"
  get_representation_path :: "(string \<times> pyval) list \<Rightarrow> string option"
  os_path_exists :: "string \<Rightarrow> bool"
  script_load :: "script \<Rightarrow> script \<times> py_error option"
  update_project_root_directory :: "script \<Rightarrow> script \<times> py_error option"
  get_current_context :: "(string \<times> pyval) list option"

section \<open>Containers (\<open>GafferHost.get_containers\<close>)\<close>

text \<open>
  A container is a dict whose values are plug values, but for \<open>_node\<close>, which is the node
  itself. Dicts are association lists in insertion order.
\<close>

datatype container_value = Value pyval | Node node

type_synonym container = "(string \<times> container_value) list"

definition required :: "string list" where
  "required = [''schema'', ''id'', ''name'', ''namespace'', ''representation'', ''loader'']"

text \<open>
  The loop over \<open>script.children(Gaffer.Node)\<close>, with its three \<open>continue\<close> statements;
  the generator's yields are the list returned.
\<close>

fun get_containers_loop :: "host \<Rightarrow> node list \<Rightarrow> container list" where
  "get_containers_loop h [] = []"
| "get_containers_loop h (node # nodes) =
     (case node_user node of
        None \<Rightarrow> get_containers_loop h nodes
      | Some user \<Rightarrow>
          if list_ex (\<lambda>key. user key = None) required then get_containers_loop h nodes
          else if getValue (the (user ''id''))
                    \<notin> {PStr (AYON_CONTAINER_ID h), PStr (AVALON_CONTAINER_ID h)}
          then get_containers_loop h nodes
          else (map (\<lambda>key. (key, Value (getValue (the (user key))))) required
                  @ [(''objectName'', Value (PStr (node_fullName node))), (''_node'', Node node)])
               # get_containers_loop h nodes)"

definition get_containers :: "host \<Rightarrow> script \<Rightarrow> container list" where
  "get_containers h script = get_containers_loop h (script_children script)"

section \<open>Context data (\<open>GafferHost.update_context_data\<close>, \<open>get_context_data\<close>)\<close>




section \<open>Opening a workfile (\<open>GafferHost.open_workfile\<close>, \<open>_on_scene_new\<close>)\<close>

text \<open>
  \<open>GafferHost.update_root_context_variables\<close> reads the current context and then calls
  \<open>ayon_gaffer.api.lib.update_root_context_variables\<close>. The module \<open>lib\<close> defines no
  function of that name, so looking the attribute up raises \<open>AttributeError\<close>, before
  any argument is evaluated.
\<close>

definition update_root_context_variables :: "host \<Rightarrow> script \<Rightarrow> script \<times> py_error option" where
  "update_root_context_variables h script_node =
     (case get_current_context h of
        None \<Rightarrow> (script_node, Some HostError)
      | Some ctxt \<Rightarrow> (script_node, Some AttributeError))"

text \<open>
  \<open>_on_scene_new\<close>: the project root directory is updated, then the root context
  variables. The second call never returns, so the statements after it are not
  reached; the first of them that is not a plain host call,
  \<open>ayon_gaffer.api.lib.set_framerate\<close>, is missing from \<open>lib\<close> as well.
\<close>

definition on_scene_new :: "host \<Rightarrow> script \<Rightarrow> script \<times> py_error option" where
  "on_scene_new h script_node =
     (case update_project_root_directory h script_node of
        (script1, Some e) \<Rightarrow> (script1, Some e)
      | (script1, None) \<Rightarrow>
          (case update_root_context_variables h script1 of
             (script2, Some e) \<Rightarrow> (script2, Some e)
           | (script2, None) \<Rightarrow> (script2, Some AttributeError)))"

text \<open>
  The state is the module's root script, \<open>None\<close> before \<open>set_root\<close>. \<open>if script:\<close> is read as
  a test for \<open>None\<close>. With no root script, \<open>script.ancestor\<close> raises \<open>AttributeError\<close>.
\<close>

definition open_workfile ::
  "host \<Rightarrow> script option \<Rightarrow> string \<Rightarrow> script option \<times> (py_error + string)" where
  "open_workfile h root_script filepath =
     (if \<not> os_path_exists h filepath then (root_script, Inl RuntimeError)
      else case root_script of
        None \<Rightarrow> (None, Inl AttributeError)
      | Some script \<Rightarrow>
          (case script_load h (script\<lparr>script_fileName := filepath\<rparr>) of
             (loaded, Some e) \<Rightarrow> (Some loaded, Inl e)
           | (loaded, None) \<Rightarrow>
               (case on_scene_new h loaded of
                  (script', Some e) \<Rightarrow> (Some script', Inl e)
                | (script', None) \<Rightarrow> (Some script', Inr filepath))))"

section \<open>Imprinting (\<open>imprint\<close>, \<open>imprint_container\<close>)\<close>

definition JSON_PREFIX :: string where
  "JSON_PREFIX = ''JSON:::''"

text \<open>The warning \<open>imprint\<close> logs: the node's name, the key and the value.\<close>

datatype log_record = Warning string string pyval

text \<open>
  The chain of \<open>isinstance\<close> tests that makes the new plug, with the value as its default
  value; \<open>None\<close> is the \<open>TypeError\<close> of the last branch. Then the section is registered,
  when it is not empty.
\<close>

definition new_plug_data :: "pyval \<Rightarrow> plug_data option" where
  "new_plug_data v =
     (case v of
        PStr s \<Rightarrow> Some (StringPlug s)
      | PBool b \<Rightarrow> Some (BoolPlug b)
      | PFloat x \<Rightarrow> Some (FloatPlug x)
      | PInt i \<Rightarrow> Some (IntPlug i)
      | _ \<Rightarrow> None)"

definition register_section :: "string \<Rightarrow> plug_data \<Rightarrow> plug" where
  "register_section section d =
     \<lparr>plug_data = d, layout_section = (if section \<noteq> [] then Some section else None)\<rparr>"

text \<open>
  The body of the loop of \<open>imprint\<close> for one key, on the node and the log. A dict becomes
  its JSON string behind the prefix. An existing plug is set; when that raises, a warning
  is logged and the code goes on to make a new plug. \<open>None\<close> becomes the string
  \<open><None>\<close>. The new plug replaces the one of that name. \<open>node["user"]\<close> raises \<open>KeyError\<close>
  on a node without the compound.
\<close>

definition imprint_key ::
  "host \<Rightarrow> string \<Rightarrow> node \<times> log_record list \<Rightarrow> string \<Rightarrow> pyval
     \<Rightarrow> (node \<times> log_record list) \<times> py_error option" where
  "imprint_key h section st key value0 =
     (let node = fst st; records = snd st in
      case (case value0 of
              PDict d \<Rightarrow> map_option (\<lambda>s. PStr (JSON_PREFIX @ s)) (json_dumps h value0)
            | _ \<Rightarrow> Some value0) of
        None \<Rightarrow> ((node, records), Some JSONError)
      | Some v \<Rightarrow>
          (case node_user node of
             None \<Rightarrow> ((node, records), Some KeyError)
           | Some user \<Rightarrow>
               (case (case user key of
                        None \<Rightarrow> Inr records
                      | Some p \<Rightarrow>
                          (case setValue h p v of
                             Some p' \<Rightarrow> Inl p'
                           | None \<Rightarrow> Inr (records @ [Warning (node_name node) key v]))) of
                  Inl p' \<Rightarrow> ((node\<lparr>node_user := Some (user(key \<mapsto> p'))\<rparr>, records), None)
                | Inr records' \<Rightarrow>
                    (let v' = (if v = PNone then PStr ''<None>'' else v) in
                     case new_plug_data v' of
                       None \<Rightarrow> ((node, records'), Some TypeError)
                     | Some d \<Rightarrow>
                         ((node\<lparr>node_user := Some (user(key \<mapsto> register_section section d))\<rparr>,
                           records'), None)))))"

text \<open>The loop \<open>for key, value in data.items()\<close>; an exception ends it.\<close>

fun imprint_items ::
  "host \<Rightarrow> string \<Rightarrow> node \<times> log_record list \<Rightarrow> (string \<times> pyval) list
     \<Rightarrow> (node \<times> log_record list) \<times> py_error option" where
  "imprint_items h section st [] = (st, None)"
| "imprint_items h section st ((key, v) # items) =
     (case imprint_key h section st key v of
        (st', Some e) \<Rightarrow> (st', Some e)
      | (st', None) \<Rightarrow> imprint_items h section st' items)"

definition imprint ::
  "host \<Rightarrow> node \<times> log_record list \<Rightarrow> (string \<times> pyval) list \<Rightarrow> string
     \<Rightarrow> (node \<times> log_record list) \<times> py_error option" where
  "imprint h st data section = imprint_items h section st data"

text \<open>
  \<open>context["representation"]["id"]\<close>: the two subscripts, \<open>KeyError\<close> on a missing key and
  \<open>TypeError\<close> on a value that is no dict.
\<close>

definition representation_id :: "(string \<times> pyval) list \<Rightarrow> py_error + pyval" where
  "representation_id context =
     (case map_of context ''representation'' of
        None \<Rightarrow> Inl KeyError
      | Some (PDict repre) \<Rightarrow>
          (case map_of repre ''id'' of None \<Rightarrow> Inl KeyError | Some i \<Rightarrow> Inr i)
      | Some _ \<Rightarrow> Inl TypeError)"

text \<open>
  The dict literal of \<open>imprint_container\<close> in its order, then \<open>imprint(node, data)\<close> with
  the default section \<open>Ayon\<close>.
\<close>

definition imprint_container ::
  "host \<Rightarrow> node \<times> log_record list \<Rightarrow> pyval \<Rightarrow> pyval \<Rightarrow> (string \<times> pyval) list \<Rightarrow> pyval
     \<Rightarrow> (node \<times> log_record list) \<times> py_error option" where
  "imprint_container h st name namespace context loader =
     (case representation_id context of
        Inl e \<Rightarrow> (st, Some e)
      | Inr rid \<Rightarrow>
          imprint h st
            [(''schema'', PStr ''openpype:container-2.0''),
             (''id'', PStr (AYON_CONTAINER_ID h)),
             (''name'', PStr (py_str h name)),
             (''namespace'', PStr (py_str h namespace)),
             (''loader'', PStr (py_str h loader)),
             (''representation'', PStr (py_str h rid))]
            ''Ayon'')"

section \<open>The scene loader (\<open>GafferLoadScene.update\<close>, \<open>switch\<close>)\<close>

text \<open>\<open>path.replace("\\", "/")\<close>.\<close>

definition backslash :: char where
  "backslash = CHR 0x5C"

definition replace_backslashes :: "string \<Rightarrow> string" where
  "replace_backslashes path = map (\<lambda>c. if c = backslash then CHR ''/'' else c) path"

text \<open>
  \<open>node[name].setValue(v)\<close> on a plug of the node, and on a plug of its \<open>user\<close> compound:
  \<open>KeyError\<close> without the plug, \<open>HostError\<close> when the host refuses the value.
\<close>

definition set_node_plug :: "host \<Rightarrow> node \<Rightarrow> string \<Rightarrow> pyval \<Rightarrow> py_error + node" where
  "set_node_plug h node name v =
     (case node_plugs node name of
        None \<Rightarrow> Inl KeyError
      | Some p \<Rightarrow>
          (case setValue h p v of
             None \<Rightarrow> Inl HostError
           | Some p' \<Rightarrow> Inr (node\<lparr>node_plugs := (node_plugs node)(name \<mapsto> p')\<rparr>)))"

definition set_user_plug :: "host \<Rightarrow> node \<Rightarrow> string \<Rightarrow> pyval \<Rightarrow> py_error + node" where
  "set_user_plug h node name v =
     (case node_user node of
        None \<Rightarrow> Inl KeyError
      | Some user \<Rightarrow>
          (case user name of
             None \<Rightarrow> Inl KeyError
           | Some p \<Rightarrow>
               (case setValue h p v of
                  None \<Rightarrow> Inl HostError
                | Some p' \<Rightarrow> Inr (node\<lparr>node_user := Some (user(name \<mapsto> p'))\<rparr>))))"

text \<open>
  \<open>update\<close> works on the node the container holds under \<open>_node\<close>; the state is the
  container, returned with its node as the call left it, and the exception, if any.
  A dict under \<open>_node\<close> raises \<open>KeyError\<close> at \<open>node["fileName"]\<close>, or \<open>AttributeError\<close> at
  \<open>setValue\<close> when it has that key; any other value that is no node cannot be
  subscripted with a string and raises \<open>TypeError\<close>.
  \<open>str(representation["_id"])\<close> is evaluated after the file name has been set.
\<close>

definition update ::
  "host \<Rightarrow> container \<Rightarrow> (string \<times> pyval) list \<Rightarrow> container \<times> py_error option" where
  "update h container repre =
     (case get_representation_path h repre of
        None \<Rightarrow> (container, Some HostError)
      | Some path0 \<Rightarrow>
          (let path = replace_backslashes path0 in
           case map_of container ''_node'' of
             None \<Rightarrow> (container, Some KeyError)
           | Some (Value (PDict d)) \<Rightarrow>
               (container,
                Some (if map_of d ''fileName'' = None then KeyError else AttributeError))
           | Some (Value _) \<Rightarrow> (container, Some TypeError)
           | Some (Node node) \<Rightarrow>
               (case set_node_plug h node ''fileName'' (PStr path) of
                  Inl e \<Rightarrow> (container, Some e)
                | Inr node1 \<Rightarrow>
                    (let container1 = AList.update ''_node'' (Node node1) container in
                     case map_of repre ''_id'' of
                       None \<Rightarrow> (container1, Some KeyError)
                     | Some i \<Rightarrow>
                         (case set_user_plug h node1 ''representation'' (PStr (py_str h i)) of
                            Inl e \<Rightarrow> (container1, Some e)
                          | Inr node2 \<Rightarrow>
                              (AList.update ''_node'' (Node node2) container, None))))))"

text \<open>\<open>switch\<close> calls \<open>self.update(container, representation)\<close> and returns nothing else.\<close>

definition switch ::
  "host \<Rightarrow> container \<Rightarrow> (string \<times> pyval) list \<Rightarrow> container \<times> py_error option" where
  "switch h container repre = update h container repre"

section \<open>A host for the worked examples\<close>

text \<open>
  The examples run on a host in which a plug takes values of its own type only, \<open>str\<close>
  is given for strings, \<open>None\<close>, booleans and integers, one workfile exists, loading a
  script and updating the project root directory change nothing, and there is a current
  context. Its JSON codec knows three documents and does on them what \<open>json.dumps\<close> and
  \<open>json.loads\<close> do: a tuple is written as an array, and an array is read as a list.
\<close>

definition strict_setValue :: "plug \<Rightarrow> pyval \<Rightarrow> plug option" where
  "strict_setValue p v =
     (case (plug_data p, v) of
        (StringPlug _, PStr s) \<Rightarrow> Some (p\<lparr>plug_data := StringPlug s\<rparr>)
      | (BoolPlug _, PBool b) \<Rightarrow> Some (p\<lparr>plug_data := BoolPlug b\<rparr>)
      | (FloatPlug _, PFloat x) \<Rightarrow> Some (p\<lparr>plug_data := FloatPlug x\<rparr>)
      | (IntPlug _, PInt i) \<Rightarrow> Some (p\<lparr>plug_data := IntPlug i\<rparr>)
      | _ \<Rightarrow> None)"

definition simple_str :: "pyval \<Rightarrow> string" where
  "simple_str v =
     (case v of
        PStr s \<Rightarrow> s
      | PNone \<Rightarrow> ''None''
      | PBool b \<Rightarrow> (if b then ''True'' else ''False'')
      | PInt i \<Rightarrow> (if i < 0 then CHR ''-'' # str_nat (nat (- i)) else str_nat (nat i))
      | _ \<Rightarrow> [])"

definition table_dumps :: "pyval \<Rightarrow> string option" where
  \<open>table_dumps v =
     (if v = PDict [] then Some ''{}''
      else if v = PDict [(''task'', PStr ''lighting'')] then Some ''{"task": "lighting"}''
      else if v = PDict [(''frames'', PTuple [PInt 1001, PInt 1100])]
           then Some ''{"frames": [1001, 1100]}''
      else None)\<close>

definition table_loads :: "pyval \<Rightarrow> pyval option" where
  \<open>table_loads v =
     (if v = PStr ''{}'' then Some (PDict [])
      else if v = PStr ''{"task": "lighting"}'' then Some (PDict [(''task'', PStr ''lighting'')])
      else if v = PStr ''{"frames": [1001, 1100]}''
           then Some (PDict [(''frames'', PList [PInt 1001, PInt 1100])])
      else None)\<close>

definition path_of_representation :: "(string \<times> pyval) list \<Rightarrow> string option" where
  "path_of_representation repre =
     (case map_of repre ''path'' of Some (PStr s) \<Rightarrow> Some s | _ \<Rightarrow> None)"

definition sample_host :: host where
  "sample_host =
     \<lparr>AYON_CONTAINER_ID = ''ayon.load.container'',
      AVALON_CONTAINER_ID = ''pyblish.avalon.container'',
      setValue = strict_setValue,
      py_str = simple_str,
      json_dumps = table_dumps,
      json_loads = table_loads,
      get_representation_path = path_of_representation,
      os_path_exists = (\<lambda>path. path = ''/proj/sh010/lighting_v001.gfr''),
      script_load = (\<lambda>script. (script, None)),
      update_project_root_directory = (\<lambda>script. (script, None)),
      get_current_context =
        Some [(''project_name'', PStr ''demo''), (''folder_path'', PStr ''/shots/sh010'')]\<rparr>"

definition string_plug :: "string \<Rightarrow> plug" where
  "string_plug s = \<lparr>plug_data = StringPlug s, layout_section = None\<rparr>"

definition reader_node :: node where
  "reader_node =
     \<lparr>node_name = ''SceneReader'',
      node_fullName = ''ScriptNode.SceneReader'',
      node_plugs = [''fileName'' \<mapsto> string_plug ''/geo/chair.abc''],
      node_user = Some Map.empty\<rparr>"

definition loaded_node :: node where
  "loaded_node =
     \<lparr>node_name = ''chair'',
      node_fullName = ''ScriptNode.chair'',
      node_plugs = [''fileName'' \<mapsto> string_plug ''/geo/chair_v001.abc''],
      node_user = Some
        [''schema'' \<mapsto> string_plug ''openpype:container-2.0'',
         ''id'' \<mapsto> string_plug ''ayon.load.container'',
         ''name'' \<mapsto> string_plug ''chair'',
         ''namespace'' \<mapsto> string_plug ''props'',
         ''representation'' \<mapsto> string_plug ''rep001'',
         ''loader'' \<mapsto> string_plug ''GafferLoadScene'']\<rparr>"

definition sample_script :: script where
  "sample_script =
     \<lparr>script_children = [reader_node, loaded_node],
      script_user = Some Map.empty,
      script_fileName = []\<rparr>"

text \<open>
  The assumption on the host under which an imprinted value can be read back: a
  \<open>setValue\<close> that returns leaves the plug holding the value.
\<close>

definition stores_value :: "host \<Rightarrow> bool" where
  "stores_value h = (\<forall>p v p'. setValue h p v = Some p' \<longrightarrow> getValue p' = v)"

text \<open>A node whose \<open>user\<close> compound holds an integer plug \<open>frames\<close>.\<close>

definition frames_node :: node where
  "frames_node =
     \<lparr>node_name = ''chair'',
      node_fullName = ''ScriptNode.chair'',
      node_plugs = Map.empty,
      node_user = Some [''frames'' \<mapsto> \<lparr>plug_data = IntPlug 24, layout_section = None\<rparr>]\<rparr>"

text \<open>A representation whose path is written with backslashes, and the container of
  \<open>loaded_node\<close>.\<close>

definition windows_representation :: "(string \<times> pyval) list" where
  "windows_representation =
     [(''_id'', PStr ''rep002''),
      (''path'', PStr (''C:'' @ backslash # ''geo'' @ backslash # ''chair_v002.abc''))]"

definition loaded_container :: container where
  "loaded_container =
     [(''schema'', Value (PStr ''openpype:container-2.0'')),
      (''id'', Value (PStr ''ayon.load.container'')),
      (''name'', Value (PStr ''chair'')),
      (''namespace'', Value (PStr ''props'')),
      (''representation'', Value (PStr ''rep001'')),
      (''loader'', Value (PStr ''GafferLoadScene'')),
      (''objectName'', Value (PStr ''ScriptNode.chair'')),
      (''_node'', Node loaded_node)]"

text \<open>
  The reader node as \<open>imprint_container\<close> leaves it, and a script that does not hold the
  reader node: its one child is \<open>loaded_node\<close>.
\<close>

definition imprinted_reader :: node where
  "imprinted_reader =
     reader_node\<lparr>node_user := Some
       [''schema'' \<mapsto> \<lparr>plug_data = StringPlug ''openpype:container-2.0'', layout_section = Some ''Ayon''\<rparr>,
        ''id'' \<mapsto> \<lparr>plug_data = StringPlug ''ayon.load.container'', layout_section = Some ''Ayon''\<rparr>,
        ''name'' \<mapsto> \<lparr>plug_data = StringPlug ''chair'', layout_section = Some ''Ayon''\<rparr>,
        ''namespace'' \<mapsto> \<lparr>plug_data = StringPlug ''props'', layout_section = Some ''Ayon''\<rparr>,
        ''loader'' \<mapsto> \<lparr>plug_data = StringPlug ''None'', layout_section = Some ''Ayon''\<rparr>,
        ''representation'' \<mapsto> \<lparr>plug_data = StringPlug ''rep001'', layout_section = Some ''Ayon''\<rparr>]\<rparr>"

definition script_without_reader :: script where
  "script_without_reader =
     \<lparr>script_children = [loaded_node], script_user = Some Map.empty, script_fileName = []\<rparr>"

section \<open>The node graph (\<open>lib.replace_node\<close>, \<open>get_node_connections\<close>)\<close>

text \<open>
  A plug of the graph with its child plugs: name, the \<open>Serialisable\<close> flag, the value
  \<open>getValue\<close> gives (\<open>None\<close> when it raises, as on a plug without a value), and the
  default value.
\<close>

datatype plug_tree =
  PlugTree (pt_name: string) (pt_serialisable: bool) (pt_value: "pyval option")
    (pt_default: pyval) (pt_children: "plug_tree list")

text \<open>
  A plug is known by the node it belongs to and its name relative to that node, the list
  of the parts that \<open>relativeName\<close> joins with dots and \<open>split('.')\<close> takes apart again.
  The script holds its child nodes, each under an identity that does not change with
  its name, and for every plug that has an input the plug it reads from. The nodes have
  no child nodes of their own, so a plug is inside a node exactly when it belongs to it.
\<close>

type_synonym plug_ref = "nat \<times> string list"

record graph_node =
  gn_name :: string
  gn_plugs :: "plug_tree list"

record graph =
  g_children :: "(nat \<times> graph_node) list"
  g_inputs :: "plug_ref \<rightharpoonup> plug_ref"

text \<open>
  The host's part in the graph operations: whether \<open>setInput\<close> accepts a connection (or
  its removal, for \<open>None\<close>), whether \<open>setValue\<close> accepts a value for a plug, and the name
  \<open>setName\<close> gives when a sibling already has the one asked for.
\<close>

record graph_host =
  accepts_input :: "plug_ref \<Rightarrow> plug_ref option \<Rightarrow> bool"
  accepts_value :: "plug_tree \<Rightarrow> pyval \<Rightarrow> bool"
  unique_name :: "string list \<Rightarrow> string \<Rightarrow> string"

text \<open>
  \<open>get_all_plugs\<close>: the plugs below a node, parents before their children, each with its
  relative name. A plug that is left out takes its children with it.
\<close>

fun get_all_plugs :: "bool \<Rightarrow> string list \<Rightarrow> plug_tree \<Rightarrow> (string list \<times> plug_tree) list" where
  "get_all_plugs include_non_serializable parent (PlugTree name serialisable v dv children) =
     (if \<not> include_non_serializable \<and> \<not> serialisable then []
      else (parent @ [name], PlugTree name serialisable v dv children)
           # concat (map (get_all_plugs include_non_serializable (parent @ [name])) children))"

definition node_all_plugs :: "bool \<Rightarrow> graph_node \<Rightarrow> (string list \<times> plug_tree) list" where
  "node_all_plugs include_non_serializable node =
     concat (map (get_all_plugs include_non_serializable []) (gn_plugs node))"

text \<open>\<open>plug.outputs()\<close>: the plugs of the script that read from the plug.\<close>

definition all_plug_refs :: "graph \<Rightarrow> plug_ref list" where
  "all_plug_refs g =
     concat (map (\<lambda>(i, node). map (\<lambda>(path, plug). (i, path)) (node_all_plugs True node))
                 (g_children g))"

definition outputs :: "graph \<Rightarrow> plug_ref \<Rightarrow> plug_ref list" where
  "outputs g p = filter (\<lambda>d. g_inputs g d = Some p) (all_plug_refs g)"

text \<open>
  The body of the loop of \<open>get_node_connections\<close> for one plug of the node, on the dict
  built so far, and the loop. An input from outside the node goes to \<open>in\<close>, the outputs
  outside the node go to \<open>out\<close>; a plug that is not serialisable, or has neither, gets no
  entry.
\<close>

definition connections_step ::
  "graph \<Rightarrow> nat \<Rightarrow> bool \<Rightarrow> (string list \<times> plug_ref list \<times> plug_ref list) list
     \<Rightarrow> string list \<times> plug_tree \<Rightarrow> (string list \<times> plug_ref list \<times> plug_ref list) list" where
  "connections_step g node include_non_serializable plugs entry =
     (let path = fst entry; plug = snd entry;
          the_input = g_inputs g (node, path);
          outs = outputs g (node, path)
      in if \<not> include_non_serializable \<and> \<not> pt_serialisable plug then plugs
         else
           (let plugmap_in = (case the_input of
                                None \<Rightarrow> []
                              | Some i \<Rightarrow> if fst i \<noteq> node then [i] else []);
                plugmap_out = filter (\<lambda>o'. fst o' \<noteq> node) outs
            in if the_input = None \<and> outs = [] then plugs
               else if plugmap_in = [] \<and> plugmap_out = [] then plugs
               else AList.update path (plugmap_in, plugmap_out) plugs))"

definition get_node_connections ::
  "graph \<Rightarrow> nat \<Rightarrow> graph_node \<Rightarrow> bool \<Rightarrow> (string list \<times> plug_ref list \<times> plug_ref list) list" where
  "get_node_connections g node_id node include_non_serializable =
     foldl (connections_step g node_id include_non_serializable) []
       (node_all_plugs True node)"

text \<open>A plug of a node by its relative name, as \<open>getChild\<close> and the subscript find it.\<close>

fun lookup_plug :: "plug_tree list \<Rightarrow> string list \<Rightarrow> plug_tree option" where
  "lookup_plug plugs [] = None"
| "lookup_plug plugs [name] = find (\<lambda>t. pt_name t = name) plugs"
| "lookup_plug plugs (name # rest) =
     (case find (\<lambda>t. pt_name t = name) plugs of
        None \<Rightarrow> None
      | Some t \<Rightarrow> lookup_plug (pt_children t) rest)"

text \<open>
  \<open>dst.setInput(src)\<close> on the graph; with \<open>None\<close> for \<open>src\<close> the plug is left without an
  input.
\<close>

definition setInput :: "graph \<Rightarrow> plug_ref \<Rightarrow> plug_ref option \<Rightarrow> graph" where
  "setInput g dst src = g\<lparr>g_inputs := (g_inputs g)(dst := src)\<rparr>"

text \<open>
  The two inner iterations of \<open>replace_node\<close> for one entry of the connections, and the loop
  over the entries. The plug of the new node with the entry's name takes the input,
  unless the new node has no such plug; every output is set to read from that plug, or
  from nothing when the new node has no such plug. A connection the host refuses raises
  and ends the iteration.
\<close>

fun rewire_inputs ::
  "graph_host \<Rightarrow> plug_ref option \<Rightarrow> graph \<Rightarrow> plug_ref list \<Rightarrow> graph \<times> py_error option" where
  "rewire_inputs h source_plug g [] = (g, None)"
| "rewire_inputs h source_plug g (plug # plugs) =
     (case source_plug of
        None \<Rightarrow> rewire_inputs h source_plug g plugs
      | Some s \<Rightarrow>
          if accepts_input h s (Some plug)
          then rewire_inputs h source_plug (setInput g s (Some plug)) plugs
          else (g, Some HostError))"

fun rewire_outputs ::
  "graph_host \<Rightarrow> plug_ref option \<Rightarrow> graph \<Rightarrow> plug_ref list \<Rightarrow> graph \<times> py_error option" where
  "rewire_outputs h source_plug g [] = (g, None)"
| "rewire_outputs h source_plug g (plug # plugs) =
     (if accepts_input h plug source_plug
      then rewire_outputs h source_plug (setInput g plug source_plug) plugs
      else (g, Some HostError))"

fun rewire ::
  "graph_host \<Rightarrow> nat \<Rightarrow> plug_tree list \<Rightarrow> graph
     \<Rightarrow> (string list \<times> plug_ref list \<times> plug_ref list) list \<Rightarrow> graph \<times> py_error option" where
  "rewire h new_id new_plugs g [] = (g, None)"
| "rewire h new_id new_plugs g ((src, pluginfo_in, pluginfo_out) # connections) =
     (let source_plug = (case lookup_plug new_plugs src of
                           None \<Rightarrow> None
                         | Some _ \<Rightarrow> Some (new_id, src))
      in case rewire_inputs h source_plug g pluginfo_in of
           (g1, Some e) \<Rightarrow> (g1, Some e)
         | (g1, None) \<Rightarrow>
             (case rewire_outputs h source_plug g1 pluginfo_out of
                (g2, Some e) \<Rightarrow> (g2, Some e)
              | (g2, None) \<Rightarrow> rewire h new_id new_plugs g2 connections))"

text \<open>
  The values to carry over: the first loop of \<open>replace_node\<close>. Plugs named in
  \<open>ignore_plug_names\<close> (to which \<open>globals\<close> is added) and plugs that are not serialisable
  are left out, and so are plugs whose \<open>getValue\<close> raises.
\<close>

definition collect_plug_data ::
  "string list \<Rightarrow> (string list \<times> plug_tree) list \<Rightarrow> (string list \<times> plug_tree \<times> pyval) list" where
  "collect_plug_data ignore_plug_names all_plugs =
     concat (map (\<lambda>(path, plug).
        if pt_name plug \<in> set ignore_plug_names then []
        else if \<not> pt_serialisable plug then []
        else (case pt_value plug of None \<Rightarrow> [] | Some v \<Rightarrow> [(path, plug, v)])) all_plugs)"

text \<open>Changing the first plug of a name in a list, and the plug of a relative name.\<close>

fun update_first :: "('a \<Rightarrow> bool) \<Rightarrow> ('a \<Rightarrow> 'a) \<Rightarrow> 'a list \<Rightarrow> 'a list" where
  "update_first P f [] = []"
| "update_first P f (x # xs) = (if P x then f x # xs else x # update_first P f xs)"

fun update_plug :: "(plug_tree \<Rightarrow> plug_tree) \<Rightarrow> string list \<Rightarrow> plug_tree list \<Rightarrow> plug_tree list" where
  "update_plug f [] plugs = plugs"
| "update_plug f [name] plugs = update_first (\<lambda>t. pt_name t = name) f plugs"
| "update_plug f (name # rest) plugs =
     update_first (\<lambda>t. pt_name t = name)
       (\<lambda>t. PlugTree (pt_name t) (pt_serialisable t) (pt_value t) (pt_default t)
               (update_plug f rest (pt_children t)))
       plugs"

text \<open>
  \<open>copy_plug\<close>: a new plug of the old plug's name, default value and flags is added
  under the plug of the new node that has the parent's relative name; when there is no
  such parent the subscript raises, the exception is caught and logged, and nothing
  changes.
\<close>

definition copy_plug :: "string list \<Rightarrow> plug_tree \<Rightarrow> plug_tree list \<Rightarrow> plug_tree list" where
  "copy_plug path plug destination_plugs =
     (let plug_parts = butlast path;
          new_plug = PlugTree (pt_name plug) (pt_serialisable plug) (Some (pt_default plug))
                       (pt_default plug) []
      in if plug_parts = [] then destination_plugs @ [new_plug]
         else (case lookup_plug destination_plugs plug_parts of
                 None \<Rightarrow> destination_plugs
               | Some _ \<Rightarrow>
                   update_plug
                     (\<lambda>t. PlugTree (pt_name t) (pt_serialisable t) (pt_value t) (pt_default t)
                             (pt_children t @ [new_plug]))
                     plug_parts destination_plugs))"

text \<open>
  The loop over the collected values, on the plugs of the new node: a plug the new node
  lacks is copied; one that is not serialisable is skipped; otherwise the value is set,
  and a refusal of the host is caught and logged. The code finds the plug of the new
  node by the old plug's full name with the old node's full name deleted from it; the
  model takes the relative name, which is the same unless the node's full name occurs
  once more inside the plug's full name.
\<close>

fun transfer_values ::
  "graph_host \<Rightarrow> plug_tree list \<Rightarrow> (string list \<times> plug_tree \<times> pyval) list \<Rightarrow> plug_tree list" where
  "transfer_values h new_plugs [] = new_plugs"
| "transfer_values h new_plugs ((path, plug, v) # plug_values) =
     transfer_values h
       (case lookup_plug new_plugs path of
          None \<Rightarrow> copy_plug path plug new_plugs
        | Some target_plug \<Rightarrow>
            if \<not> pt_serialisable target_plug then new_plugs
            else if accepts_value h target_plug v
            then update_plug
                   (\<lambda>t. PlugTree (pt_name t) (pt_serialisable t) (Some v) (pt_default t)
                           (pt_children t))
                   path new_plugs
            else new_plugs)
       plug_values"

text \<open>
  \<open>removeChild\<close>: the node leaves the script, and the host takes away the connections
  between its plugs and the plugs that stay. \<open>setName\<close>: the host gives the name asked
  for unless another child of the script has it.
\<close>

definition removeChild :: "graph \<Rightarrow> nat \<Rightarrow> graph" where
  "removeChild g node_id =
     \<lparr>g_children = filter (\<lambda>(i, node). i \<noteq> node_id) (g_children g),
      g_inputs = (\<lambda>d. if fst d = node_id then None
                       else (case g_inputs g d of
                               None \<Rightarrow> None
                             | Some s \<Rightarrow> if fst s = node_id then None else Some s))\<rparr>"

definition setName :: "graph_host \<Rightarrow> graph \<Rightarrow> nat \<Rightarrow> string \<Rightarrow> graph" where
  "setName h g node_id name =
     (let siblings = map (\<lambda>(i, node). gn_name node)
                       (filter (\<lambda>(i, node). i \<noteq> node_id) (g_children g));
          name' = (if name \<in> set siblings then unique_name h siblings name else name)
      in g\<lparr>g_children :=
           map (\<lambda>(i, node). if i = node_id then (i, node\<lparr>gn_name := name'\<rparr>) else (i, node))
               (g_children g)\<rparr>)"

definition set_node_plugs :: "graph \<Rightarrow> nat \<Rightarrow> plug_tree list \<Rightarrow> graph" where
  "set_node_plugs g node_id plugs =
     g\<lparr>g_children :=
         map (\<lambda>(i, node). if i = node_id then (i, node\<lparr>gn_plugs := plugs\<rparr>) else (i, node))
             (g_children g)\<rparr>"

text \<open>
  \<open>replace_node\<close>, on the script that holds both nodes. The parameter \<open>rename\<close> is never
  read. The last loop sets the \<open>enabled\<close> plug of every upstream node to \<open>False\<close>, to
  \<open>True\<close> and to the value it had, inside \<open>try\<close>: it leaves the graph as it finds it.
  The model covers nodes that are in the script. For an identity that is not, it stops
  at once with \<open>AttributeError\<close>; the code would raise it at \<open>removeChild\<close>, after the
  rewiring.
\<close>

definition replace_node ::
  "graph_host \<Rightarrow> graph \<Rightarrow> nat \<Rightarrow> nat \<Rightarrow> string list \<Rightarrow> graph \<times> py_error option" where
  "replace_node h g old_node new_node ignore_plug_names =
     (case (map_of (g_children g) old_node, map_of (g_children g) new_node) of
        (Some old, Some new) \<Rightarrow>
          (let all_plugs = node_all_plugs True old;
               plug_values = collect_plug_data (ignore_plug_names @ [''globals'']) all_plugs;
               connections = get_node_connections g old_node old False
           in case rewire h new_node (gn_plugs new) g connections of
                (g1, Some e) \<Rightarrow> (g1, Some e)
              | (g1, None) \<Rightarrow>
                  (let g2 = set_node_plugs g1 new_node
                              (transfer_values h (gn_plugs new) plug_values);
                       old_name = gn_name old;
                       g3 = removeChild g2 old_node
                   in (setName h g3 new_node old_name, None)))
      | _ \<Rightarrow> (g, Some AttributeError))"

text \<open>
  Names for what the code computes for one plug of a node: the plug of the new node
  an entry is wired to, the input of the plug when it comes from outside the node, and
  its outputs outside the node.
\<close>

definition source_of :: "nat \<Rightarrow> plug_tree list \<Rightarrow> string list \<Rightarrow> plug_ref option" where
  "source_of new_id new_plugs src =
     (case lookup_plug new_plugs src of None \<Rightarrow> None | Some _ \<Rightarrow> Some (new_id, src))"

definition external_input :: "graph \<Rightarrow> nat \<Rightarrow> string list \<Rightarrow> plug_ref list" where
  "external_input g node path =
     (case g_inputs g (node, path) of
        None \<Rightarrow> []
      | Some i \<Rightarrow> if fst i \<noteq> node then [i] else [])"

definition external_outputs :: "graph \<Rightarrow> nat \<Rightarrow> string list \<Rightarrow> plug_ref list" where
  "external_outputs g node path = filter (\<lambda>o'. fst o' \<noteq> node) (outputs g (node, path))"

text \<open>
  A host that accepts every connection and value, and a script of four nodes: a reader
  that feeds the \<open>in\<close> and the \<open>mask\<close> plug of a filter, a writer that reads from the
  filter, and the node that is to replace the filter. The \<open>mask\<close> plug of the filter is
  not serialisable.
\<close>

definition accepting_host :: graph_host where
  "accepting_host =
     \<lparr>accepts_input = (\<lambda>dst src. True),
      accepts_value = (\<lambda>plug v. True),
      unique_name = (\<lambda>siblings name. name @ ''1'')\<rparr>"

definition leaf :: "string \<Rightarrow> bool \<Rightarrow> plug_tree" where
  "leaf name serialisable = PlugTree name serialisable None PNone []"

definition small_graph :: graph where
  "small_graph =
     \<lparr>g_children =
        [(0, \<lparr>gn_name = ''reader'', gn_plugs = [leaf ''out'' True]\<rparr>),
         (1, \<lparr>gn_name = ''filter'', gn_plugs = [leaf ''in'' True, leaf ''mask'' False, leaf ''out'' True]\<rparr>),
         (2, \<lparr>gn_name = ''filter_new'', gn_plugs = [leaf ''in'' True, leaf ''mask'' True, leaf ''out'' True]\<rparr>),
         (3, \<lparr>gn_name = ''writer'', gn_plugs = [leaf ''in'' True]\<rparr>)],
      g_inputs = [(1, [''in'']) \<mapsto> (0, [''out'']),
                  (1, [''mask'']) \<mapsto> (0, [''out'']),
                  (3, [''in'']) \<mapsto> (1, [''out''])]\<rparr>"

section \<open>Properties of the comma separated plug values\<close>

lemma split_comma_nonempty: "split_comma s \<noteq> []"
  by (induction s) (auto simp: Let_def)

lemma join_split_comma: "join_comma (split_comma s) = s"
proof (induction s)
  case Nil
  show ?case by simp
next
  case (Cons c cs)
  obtain w ws where r: "split_comma cs = w # ws"
    using split_comma_nonempty [of cs] by (cases "split_comma cs") auto
  show ?case
  proof (cases "c = CHR '',''")
    case True
    with Cons r show ?thesis by simp
  next
    case False
    with Cons r show ?thesis by (cases ws) (auto simp: Let_def)
  qed
qed

lemma join_comma_snoc:
  "xs \<noteq> [] \<Longrightarrow> join_comma (xs @ [v]) = join_comma xs @ CHR '','' # v"
  by (induction xs rule: join_comma.induct) auto

lemma split_comma_no_comma: "CHR '','' \<notin> set v \<Longrightarrow> split_comma v = [v]"
  by (induction v) (auto simp: Let_def)

lemma split_comma_append:
  "split_comma (s @ CHR '','' # v) = split_comma s @ split_comma v"
proof (induction s)
  case Nil
  show ?case by simp
next
  case (Cons c cs)
  obtain w ws where r: "split_comma cs = w # ws"
    using split_comma_nonempty [of cs] by (cases "split_comma cs") auto
  with Cons show ?case by (auto simp: Let_def)
qed

lemma append_to_csv_plug_present:
  "v \<in> set (split_comma cur) \<Longrightarrow> append_to_csv_plug cur v False = cur"
  by (simp add: append_to_csv_plug_def join_split_comma)

lemma append_to_csv_plug_absent:
  "v \<notin> set (split_comma cur) \<Longrightarrow> append_to_csv_plug cur v False = cur @ CHR '','' # v"
  by (simp add: append_to_csv_plug_def join_split_comma join_comma_snoc split_comma_nonempty)

lemma append_to_csv_plug_duplicates:
  "append_to_csv_plug cur v True = cur @ CHR '','' # v"
  by (simp add: append_to_csv_plug_def join_split_comma join_comma_snoc split_comma_nonempty)

text \<open>
  Claim C10, as stated, says that \<open>append_to_csv_plug\<close> with \<open>allow_duplicates=False\<close> is
  idempotent for every plug and every value. It is not: the value \<open>a,b\<close> is never an
  element of a list split at commas, so on a plug holding \<open>x\<close> the first call gives
  \<open>x,a,b\<close> and the second call appends once more.
\<close>

theorem append_to_csv_plug_not_idempotent:
  "append_to_csv_plug (append_to_csv_plug ''x'' ''a,b'' False) ''a,b'' False
     \<noteq> append_to_csv_plug ''x'' ''a,b'' False"
  by (simp add: append_to_csv_plug_def)

text \<open>
  Claim C10, amended: for a value that holds no comma, \<open>append_to_csv_plug\<close> without
  duplicates is idempotent; a value that is already an element of the split list leaves
  the plug's value as it is (the join of its split); and with \<open>allow_duplicates=True\<close>
  the value is appended after a comma, and is the new last element of the split list.
\<close>

theorem append_to_csv_plug_idempotent:
  assumes "CHR '','' \<notin> set v"
  shows "append_to_csv_plug (append_to_csv_plug cur v False) v False
           = append_to_csv_plug cur v False
       \<and> (v \<in> set (split_comma cur) \<longrightarrow>
            append_to_csv_plug cur v False = join_comma (split_comma cur)
            \<and> append_to_csv_plug cur v False = cur)
       \<and> append_to_csv_plug cur v True = join_comma (split_comma cur @ [v])
       \<and> split_comma (append_to_csv_plug cur v True) = split_comma cur @ [v]"
proof -
  have twice: "append_to_csv_plug (append_to_csv_plug cur v False) v False
          = append_to_csv_plug cur v False"
  proof (cases "v \<in> set (split_comma cur)")
    case True
    then show ?thesis by (simp add: append_to_csv_plug_present)
  next
    case False
    then have first: "append_to_csv_plug cur v False = cur @ CHR '','' # v"
      by (rule append_to_csv_plug_absent)
    have "v \<in> set (split_comma (cur @ CHR '','' # v))"
      using assms by (simp add: split_comma_append split_comma_no_comma)
    then show ?thesis
      unfolding first by (rule append_to_csv_plug_present)
  qed
  have kept: "v \<in> set (split_comma cur) \<longrightarrow>
          append_to_csv_plug cur v False = join_comma (split_comma cur)
          \<and> append_to_csv_plug cur v False = cur"
    by (simp add: append_to_csv_plug_present join_split_comma)
  have appended: "append_to_csv_plug cur v True = join_comma (split_comma cur @ [v])"
    by (simp add: append_to_csv_plug_def)
  have last: "split_comma (append_to_csv_plug cur v True) = split_comma cur @ [v]"
    using assms
    by (simp add: append_to_csv_plug_duplicates split_comma_append split_comma_no_comma)
  from twice kept appended last show ?thesis by blast
qed

theorem append_to_csv_plug_idempotent_witness:
  "CHR '','' \<notin> set ''gpu''
   \<and> ''gpu'' \<in> set (split_comma ''cpu,gpu'')
   \<and> append_to_csv_plug (append_to_csv_plug ''cpu'' ''gpu'' False) ''gpu'' False = ''cpu,gpu''
   \<and> append_to_csv_plug ''cpu,gpu'' ''gpu'' False = ''cpu,gpu''
   \<and> append_to_csv_plug ''cpu,gpu'' ''gpu'' True = ''cpu,gpu,gpu''
   \<and> split_comma (append_to_csv_plug ''cpu,gpu'' ''gpu'' True) = [''cpu'', ''gpu'', ''gpu'']"
proof -
  have no_comma: "CHR '','' \<notin> set ''gpu''" by simp
  have present: "''gpu'' \<in> set (split_comma ''cpu,gpu'')" by simp
  have once: "append_to_csv_plug ''cpu'' ''gpu'' False = ''cpu,gpu''"
    by (simp add: append_to_csv_plug_def)
  from append_to_csv_plug_idempotent [OF no_comma, of "''cpu''"] once
  have "append_to_csv_plug (append_to_csv_plug ''cpu'' ''gpu'' False) ''gpu'' False = ''cpu,gpu''"
    by simp
  moreover from append_to_csv_plug_idempotent [OF no_comma, of "''cpu,gpu''"] present
  have "append_to_csv_plug ''cpu,gpu'' ''gpu'' False = ''cpu,gpu''
      \<and> append_to_csv_plug ''cpu,gpu'' ''gpu'' True = ''cpu,gpu,gpu''
      \<and> split_comma (append_to_csv_plug ''cpu,gpu'' ''gpu'' True) = [''cpu'', ''gpu'', ''gpu'']"
    by simp
  ultimately show ?thesis using no_comma present by simp
qed

section \<open>Properties of the scene traversal\<close>

lemma traverse_queue_append:
  "traverse_queue (length xs + n) cn (xs @ ys) =
     map_option ((@) xs) (traverse_queue n cn (ys @ next_level cn xs))"
proof (induction xs arbitrary: ys)
  case Nil
  show ?case by (simp add: next_level_def option.map_ident)
next
  case (Cons x xs)
  have "traverse_queue (length (x # xs) + n) cn ((x # xs) @ ys) =
      map_option ((#) x)
        (traverse_queue (length xs + n) cn (xs @ (ys @ enqueue_children cn x)))"
    by simp
  also have "\<dots> = map_option ((#) x) (map_option ((@) xs)
      (traverse_queue n cn ((ys @ enqueue_children cn x) @ next_level cn xs)))"
    by (simp only: Cons.IH)
  also have "\<dots> =
      map_option ((@) (x # xs)) (traverse_queue n cn (ys @ next_level cn (x # xs)))"
    by (cases "traverse_queue n cn (ys @ next_level cn (x # xs))")
      (simp_all add: next_level_def)
  finally show ?case .
qed

lemma traverse_queue_level:
  "traverse_queue (length xs + n) cn xs =
     map_option ((@) xs) (traverse_queue n cn (next_level cn xs))"
  using traverse_queue_append [of xs n cn "[]"] by simp

lemma traverse_queue_more_fuel:
  "traverse_queue n cn q = Some r \<Longrightarrow> traverse_queue (n + m) cn q = Some r"
  by (induction n cn q arbitrary: r rule: traverse_queue.induct) auto

lemma traverse_levels:
  "scene_level cn root_path (k + d) = [] \<Longrightarrow>
   traverse_queue (length (concat (map (\<lambda>i. scene_level cn root_path (k + i)) [0..<d]))) cn
       (scene_level cn root_path k)
     = Some (concat (map (\<lambda>i. scene_level cn root_path (k + i)) [0..<d]))"
proof (induction d arbitrary: k)
  case 0
  then show ?case by simp
next
  case (Suc d)
  have split: "map (\<lambda>i. scene_level cn root_path (k + i)) [0..<Suc d] =
      scene_level cn root_path k # map (\<lambda>i. scene_level cn root_path (Suc k + i)) [0..<d]"
    by (simp add: upt_conv_Cons map_Suc_upt [symmetric] del: upt_Suc)
  from Suc.prems have "scene_level cn root_path (Suc k + d) = []" by simp
  from Suc.IH [OF this] show ?case
    unfolding split by (simp add: traverse_queue_level)
qed

text \<open>
  Claim C9: on a finite scene (below some depth there are no paths left) the traversal
  returns, and what it yields is the breadth-first listing: the root path first, then depth
  after depth, every path of a level once and in the order of its parents, each child
  path being \<open>child_path\<close> of its parent and the child's name. Any fuel from the number
  of paths on is enough.
\<close>

theorem traverse_scene_breadth_first:
  assumes "scene_level childNames root_path depth = []"
  shows "traverse_scene (length (breadth_first childNames root_path depth) + extra)
             childNames root_path
           = Some (breadth_first childNames root_path depth)
       \<and> hd (breadth_first childNames root_path depth) = root_path
       \<and> scene_level childNames root_path (Suc d) =
           concat (map (\<lambda>path. map (\<lambda>child_name. rstrip_slash path @ ''/'' @ child_name)
                                    (childNames path))
                       (scene_level childNames root_path d))"
proof -
  have "traverse_queue (length (breadth_first childNames root_path depth)) childNames
      [root_path] = Some (breadth_first childNames root_path depth)"
    using traverse_levels [of childNames root_path 0 depth] assms
    by (simp add: breadth_first_def)
  then have returns: "traverse_scene (length (breadth_first childNames root_path depth) + extra)
      childNames root_path = Some (breadth_first childNames root_path depth)"
    unfolding traverse_scene_def by (rule traverse_queue_more_fuel)
  from assms have "depth \<noteq> 0" by (cases depth) auto
  then obtain d' where "depth = Suc d'" by (cases depth) auto
  then have first: "hd (breadth_first childNames root_path depth) = root_path"
    by (simp add: breadth_first_def upt_conv_Cons del: upt_Suc)
  have level: "scene_level childNames root_path (Suc d) =
      concat (map (\<lambda>path. map (\<lambda>child_name. rstrip_slash path @ ''/'' @ child_name)
                               (childNames path))
                  (scene_level childNames root_path d))"
    by (simp add: next_level_def enqueue_children_def [abs_def] child_path_def [abs_def])
  from returns first level show ?thesis by blast
qed

theorem traverse_scene_breadth_first_witness:
  "scene_level sample_childNames ''/'' 3 = []
   \<and> traverse_scene 4 sample_childNames ''/''
       = Some [''/'', ''/world'', ''/cameras'', ''/world/geo'']"
proof -
  have finite: "scene_level sample_childNames ''/'' 3 = []"
    by (simp add: eval_nat_numeral next_level_def enqueue_children_def child_path_def
        rstrip_slash_def sample_childNames_def)
  have listing: "breadth_first sample_childNames ''/'' 3
      = [''/'', ''/world'', ''/cameras'', ''/world/geo'']"
    by (simp add: breadth_first_def eval_nat_numeral upt_conv_Cons next_level_def
        enqueue_children_def child_path_def rstrip_slash_def sample_childNames_def
        del: upt_Suc)
  have "traverse_scene (length (breadth_first sample_childNames ''/'' 3) + 0)
      sample_childNames ''/'' = Some (breadth_first sample_childNames ''/'' 3)"
    using traverse_scene_breadth_first [OF finite, of 0 0] by blast
  moreover have "length (breadth_first sample_childNames ''/'' 3) + 0 = 4"
    by (simp add: listing)
  ultimately have "traverse_scene 4 sample_childNames ''/''
      = Some (breadth_first sample_childNames ''/'' 3)"
    by (simp only:)
  with finite show ?thesis by (simp only: listing)
qed

section \<open>Properties of the name generation\<close>

lemma str_nat_one: "str_nat (Suc 0) = ''1''"
  by code_simp

text \<open>
  When no child matches the pattern, the number is 1, padded with zeros to the length
  of the block of \<open>#\<close>.
\<close>

theorem get_next_valid_name_first:
  assumes "search_template template = Some (head, padding, tail)"
    and "filter (match_name head tail) children_names = []"
  shows "get_next_valid_name template children_names
           = Inr (head @ replicate (length padding - 1) (CHR ''0'') @ ''1'' @ tail)"
  using assms by (simp add: get_next_valid_name_def zfill_def str_nat_one)

theorem get_next_valid_name_first_witness:
  "search_template ''node_###'' = Some (''node_'', ''###'', [])
   \<and> filter (match_name ''node_'' []) [''fileName'', ''user''] = []
   \<and> get_next_valid_name ''node_###'' [''fileName'', ''user''] = Inr ''node_001''"
proof -
  have found: "search_template ''node_###'' = Some (''node_'', ''###'', [])"
    by code_simp
  have none: "filter (match_name ''node_'' []) [''fileName'', ''user''] = []"
    by code_simp
  from get_next_valid_name_first [OF found none] found none show ?thesis by simp
qed

text \<open>
  Claim C4 asks for a name that differs from every matching child. The code takes the
  number from the last digit of the greatest matching name alone. In a script whose
  children are its plugs and the nodes \<open>node_001\<close> and \<open>node_010\<close>, the greatest matching
  name is \<open>node_010\<close>, its last digit is \<open>0\<close>, and the name returned for the template
  \<open>node_###\<close> is \<open>node_001\<close>, the name of a child that matches the pattern.
\<close>

theorem get_next_valid_name_collision:
  "get_next_valid_name ''node_###''
      [''fileName'', ''unsavedChanges'', ''frameRange'', ''variables'', ''user'',
       ''node_001'', ''node_010'']
     = Inr ''node_001''
   \<and> search_template ''node_###'' = Some (''node_'', ''###'', [])
   \<and> filter (match_name ''node_'' [])
        [''fileName'', ''unsavedChanges'', ''frameRange'', ''variables'', ''user'',
         ''node_001'', ''node_010'']
     = [''node_001'', ''node_010'']"
  by code_simp

section \<open>Properties of the containers\<close>

lemma get_containers_loop_iff:
  "c \<in> set (get_containers_loop h nodes) \<longleftrightarrow>
     (\<exists>node \<in> set nodes. \<exists>user.
        node_user node = Some user
        \<and> (\<forall>key \<in> set required. key \<in> dom user)
        \<and> getValue (the (user ''id''))
              \<in> {PStr (AYON_CONTAINER_ID h), PStr (AVALON_CONTAINER_ID h)}
        \<and> c = map (\<lambda>key. (key, Value (getValue (the (user key))))) required
                @ [(''objectName'', Value (PStr (node_fullName node))), (''_node'', Node node)])"
proof (induction nodes)
  case Nil
  show ?case by simp
next
  case (Cons node nodes)
  show ?case
  proof (cases "node_user node")
    case None
    with Cons show ?thesis by simp
  next
    case (Some user)
    have ex: "list_ex (\<lambda>key. user key = None) required \<longleftrightarrow> \<not> (\<forall>key \<in> set required. key \<in> dom user)"
      by (auto simp: list_ex_iff)
    show ?thesis
      using Cons Some by (simp add: ex del: insert_iff) blast
  qed
qed

text \<open>
  Claim C1: \<open>get_containers\<close> yields a dict for a child node of the script exactly when
  the node has a \<open>user\<close> compound that holds the six required keys and the value of
  \<open>user["id"]\<close> is one of the two container ids; the dict maps each required key to the
  value of its plug and carries \<open>objectName\<close>, the node's full name, and \<open>_node\<close>, the node.
\<close>

theorem get_containers_iff:
  "c \<in> set (get_containers h script) \<longleftrightarrow>
     (\<exists>node \<in> set (script_children script). \<exists>user.
        node_user node = Some user
        \<and> (\<forall>key \<in> set required. key \<in> dom user)
        \<and> getValue (the (user ''id''))
              \<in> {PStr (AYON_CONTAINER_ID h), PStr (AVALON_CONTAINER_ID h)}
        \<and> c = map (\<lambda>key. (key, Value (getValue (the (user key))))) required
                @ [(''objectName'', Value (PStr (node_fullName node))), (''_node'', Node node)])"
  unfolding get_containers_def by (rule get_containers_loop_iff)

theorem get_containers_iff_witness:
  "[(''schema'', Value (PStr ''openpype:container-2.0'')),
    (''id'', Value (PStr ''ayon.load.container'')),
    (''name'', Value (PStr ''chair'')),
    (''namespace'', Value (PStr ''props'')),
    (''representation'', Value (PStr ''rep001'')),
    (''loader'', Value (PStr ''GafferLoadScene'')),
    (''objectName'', Value (PStr ''ScriptNode.chair'')),
    (''_node'', Node loaded_node)] \<in> set (get_containers sample_host sample_script)
   \<and> length (get_containers sample_host sample_script) = 1"
proof -
  have "length (get_containers sample_host sample_script) = 1"
    by (simp add: get_containers_def sample_script_def reader_node_def loaded_node_def
        required_def sample_host_def string_plug_def getValue_def)
  moreover have "[(''schema'', Value (PStr ''openpype:container-2.0'')),
    (''id'', Value (PStr ''ayon.load.container'')),
    (''name'', Value (PStr ''chair'')),
    (''namespace'', Value (PStr ''props'')),
    (''representation'', Value (PStr ''rep001'')),
    (''loader'', Value (PStr ''GafferLoadScene'')),
    (''objectName'', Value (PStr ''ScriptNode.chair'')),
    (''_node'', Node loaded_node)] \<in> set (get_containers sample_host sample_script)"
    unfolding get_containers_iff
    apply (rule bexI [of _ loaded_node])
     apply (rule exI [of _ "the (node_user loaded_node)"])
     apply (simp add: loaded_node_def required_def sample_host_def string_plug_def getValue_def)
    apply (simp add: sample_script_def)
    done
  ultimately show ?thesis by simp
qed

section \<open>Properties of imprinting\<close>

lemma imprint_key_str:
  assumes "stores_value h" and "node_user node = Some user"
  shows "\<exists>node' records' user'.
           imprint_key h sec (node, records) key (PStr s) = ((node', records'), None)
           \<and> node_user node' = Some user'
           \<and> node_fullName node' = node_fullName node
           \<and> (\<exists>p. user' key = Some p \<and> getValue p = PStr s)
           \<and> (\<forall>k. k \<noteq> key \<longrightarrow> user' k = user k)"
proof (cases "user key")
  case None
  with assms show ?thesis
    by (simp add: imprint_key_def new_plug_data_def register_section_def getValue_def)
next
  case (Some p)
  show ?thesis
  proof (cases "setValue h p (PStr s)")
    case None
    with Some assms show ?thesis
      by (simp add: imprint_key_def new_plug_data_def register_section_def getValue_def)
  next
    case (Some p')
    with assms have "getValue p' = PStr s" by (simp add: stores_value_def)
    with Some \<open>user key = Some p\<close> assms show ?thesis
      by (simp add: imprint_key_def)
  qed
qed

lemma imprint_items_str:
  assumes "stores_value h"
  shows "node_user node = Some user \<Longrightarrow> distinct (map fst items) \<Longrightarrow>
         \<exists>node' records' user'.
           imprint_items h sec (node, records) (map (\<lambda>(k, s). (k, PStr s)) items)
             = ((node', records'), None)
           \<and> node_user node' = Some user'
           \<and> node_fullName node' = node_fullName node
           \<and> (\<forall>(k, s) \<in> set items. \<exists>p. user' k = Some p \<and> getValue p = PStr s)
           \<and> (\<forall>k. k \<notin> fst ` set items \<longrightarrow> user' k = user k)"
proof (induction items arbitrary: node user records)
  case Nil
  then show ?case by simp
next
  case (Cons item items)
  obtain key s where item: "item = (key, s)" by (cases item)
  from imprint_key_str [OF assms Cons.prems(1), of sec records key s]
  obtain node1 records1 user1 where step:
    "imprint_key h sec (node, records) key (PStr s) = ((node1, records1), None)"
    and user1: "node_user node1 = Some user1"
    and name1: "node_fullName node1 = node_fullName node"
    and at_key: "\<exists>p. user1 key = Some p \<and> getValue p = PStr s"
    and others: "\<forall>k. k \<noteq> key \<longrightarrow> user1 k = user k"
    by blast
  from Cons.prems(2) item have fresh: "key \<notin> fst ` set items" and dist: "distinct (map fst items)"
    by auto
  from Cons.IH [OF user1 dist, of records1]
  obtain node2 records2 user2 where rest:
    "imprint_items h sec (node1, records1) (map (\<lambda>(k, s). (k, PStr s)) items)
      = ((node2, records2), None)"
    and user2: "node_user node2 = Some user2"
    and name2: "node_fullName node2 = node_fullName node1"
    and at_items: "\<forall>(k, s) \<in> set items. \<exists>p. user2 k = Some p \<and> getValue p = PStr s"
    and others2: "\<forall>k. k \<notin> fst ` set items \<longrightarrow> user2 k = user1 k"
    by blast
  have run: "imprint_items h sec (node, records) (map (\<lambda>(k, s). (k, PStr s)) (item # items))
      = ((node2, records2), None)"
    using step rest by (simp add: item)
  have key_kept: "\<exists>p. user2 key = Some p \<and> getValue p = PStr s"
    using fresh others2 at_key by simp
  have "\<forall>(k, s) \<in> set (item # items). \<exists>p. user2 k = Some p \<and> getValue p = PStr s"
    using key_kept at_items by (simp add: item)
  moreover have "\<forall>k. k \<notin> fst ` set (item # items) \<longrightarrow> user2 k = user k"
    using others others2 by (simp add: item)
  moreover have "node_fullName node2 = node_fullName node"
    using name1 name2 by simp
  ultimately show ?case using run user2 by blast
qed

text \<open>
  Claim C2, as stated, speaks of every node with a \<open>user\<close> compound. \<open>get_containers\<close>
  goes through the child nodes of the root script only: the reader node, imprinted while
  it is not a child of the script, is not yielded; the one container is that of the
  other node.
\<close>

theorem imprint_container_not_child:
  "node_user reader_node = Some Map.empty
   \<and> reader_node \<notin> set (script_children script_without_reader)
   \<and> imprint_container sample_host (reader_node, []) (PStr ''chair'') (PStr ''props'')
        [(''representation'', PDict [(''id'', PStr ''rep001'')])] PNone
       = ((imprinted_reader, []), None)
   \<and> get_containers sample_host script_without_reader = [loaded_container]
   \<and> map_of loaded_container ''_node'' = Some (Node loaded_node)
   \<and> loaded_node \<noteq> imprinted_reader"
proof -
  have a: "node_user reader_node = Some Map.empty" by (simp add: reader_node_def)
  have b: "reader_node \<notin> set (script_children script_without_reader)"
    by (simp add: script_without_reader_def reader_node_def loaded_node_def)
  have c: "imprint_container sample_host (reader_node, []) (PStr ''chair'') (PStr ''props'')
        [(''representation'', PDict [(''id'', PStr ''rep001'')])] PNone
       = ((imprinted_reader, []), None)"
    by (simp add: imprint_container_def representation_id_def imprint_def imprint_key_def
        reader_node_def imprinted_reader_def sample_host_def simple_str_def new_plug_data_def
        register_section_def)
  have d: "get_containers sample_host script_without_reader = [loaded_container]"
    by (simp add: get_containers_def script_without_reader_def loaded_node_def
        loaded_container_def required_def sample_host_def string_plug_def getValue_def)
  have e: "map_of loaded_container ''_node'' = Some (Node loaded_node)"
    by (simp add: loaded_container_def)
  have f: "loaded_node \<noteq> imprinted_reader"
    by (simp add: loaded_node_def imprinted_reader_def reader_node_def)
  from a b c d e f show ?thesis by blast
qed

text \<open>
  Claim C2, amended: a node with a \<open>user\<close> compound that is a direct child of the root
  script is, after \<open>imprint_container\<close>, yielded by \<open>get_containers\<close> with the schema
  \<open>openpype:container-2.0\<close>, the id \<open>AYON_CONTAINER_ID\<close>, and \<open>str\<close> of the name, the
  namespace, the loader and the representation id of the context. The context holds
  that id, and the host's \<open>setValue\<close>, where it returns, stores the value.
\<close>

theorem imprint_container_recognized:
  assumes "stores_value h"
    and "node_user node = Some user"
    and "representation_id context = Inr rid"
    and "i < length (script_children script)"
    and "script_children script ! i = node"
  shows "\<exists>node' records'.
           imprint_container h (node, records) name namespace context loader
             = ((node', records'), None)
           \<and> [(''schema'', Value (PStr ''openpype:container-2.0'')),
               (''id'', Value (PStr (AYON_CONTAINER_ID h))),
               (''name'', Value (PStr (py_str h name))),
               (''namespace'', Value (PStr (py_str h namespace))),
               (''representation'', Value (PStr (py_str h rid))),
               (''loader'', Value (PStr (py_str h loader))),
               (''objectName'', Value (PStr (node_fullName node))),
               (''_node'', Node node')]
             \<in> set (get_containers h
                 (script\<lparr>script_children := (script_children script)[i := node']\<rparr>))"
proof -
  let ?items = "[(''schema'', ''openpype:container-2.0''),
                 (''id'', AYON_CONTAINER_ID h),
                 (''name'', py_str h name),
                 (''namespace'', py_str h namespace),
                 (''loader'', py_str h loader),
                 (''representation'', py_str h rid)]"
  have "distinct (map fst ?items)" by simp
  from imprint_items_str [OF assms(1) assms(2) this, of "''Ayon''" records]
  obtain node' records' user' where run:
    "imprint_items h ''Ayon'' (node, records) (map (\<lambda>(k, s). (k, PStr s)) ?items)
       = ((node', records'), None)"
    and user: "node_user node' = Some user'"
    and name: "node_fullName node' = node_fullName node"
    and vals: "\<forall>(k, s) \<in> set ?items. \<exists>p. user' k = Some p \<and> getValue p = PStr s"
    by blast
  have imprinted: "imprint_container h (node, records) name namespace context loader
      = ((node', records'), None)"
    using run assms(3) by (simp add: imprint_container_def imprint_def)
  have child: "node' \<in> set ((script_children script)[i := node'])"
    using assms(4) by (simp add: set_update_memI)
  have keys: "\<forall>key \<in> set required. key \<in> dom user'"
    using vals by (auto simp: required_def)
  have id: "getValue (the (user' ''id''))
      \<in> {PStr (AYON_CONTAINER_ID h), PStr (AVALON_CONTAINER_ID h)}"
    using vals by auto
  have dict: "[(''schema'', Value (PStr ''openpype:container-2.0'')),
               (''id'', Value (PStr (AYON_CONTAINER_ID h))),
               (''name'', Value (PStr (py_str h name))),
               (''namespace'', Value (PStr (py_str h namespace))),
               (''representation'', Value (PStr (py_str h rid))),
               (''loader'', Value (PStr (py_str h loader))),
               (''objectName'', Value (PStr (node_fullName node))),
               (''_node'', Node node')]
     = map (\<lambda>key. (key, Value (getValue (the (user' key))))) required
         @ [(''objectName'', Value (PStr (node_fullName node'))), (''_node'', Node node')]"
    using vals name by (auto simp: required_def)
  have "[(''schema'', Value (PStr ''openpype:container-2.0'')),
               (''id'', Value (PStr (AYON_CONTAINER_ID h))),
               (''name'', Value (PStr (py_str h name))),
               (''namespace'', Value (PStr (py_str h namespace))),
               (''representation'', Value (PStr (py_str h rid))),
               (''loader'', Value (PStr (py_str h loader))),
               (''objectName'', Value (PStr (node_fullName node))),
               (''_node'', Node node')]
      \<in> set (get_containers h
                 (script\<lparr>script_children := (script_children script)[i := node']\<rparr>))"
    unfolding get_containers_def get_containers_loop_iff dict
    using child user keys id by (intro bexI [of _ node'] exI [of _ user']) simp_all
  with imprinted show ?thesis by blast
qed

lemma stores_value_sample: "stores_value sample_host"
  by (auto simp: stores_value_def sample_host_def strict_setValue_def getValue_def
      split: plug_data.splits pyval.splits)

theorem imprint_container_recognized_witness:
  "stores_value sample_host
   \<and> node_user reader_node = Some Map.empty
   \<and> representation_id [(''representation'', PDict [(''id'', PStr ''rep001'')])] = Inr (PStr ''rep001'')
   \<and> 0 < length (script_children sample_script)
   \<and> script_children sample_script ! 0 = reader_node
   \<and> (\<exists>node' records'.
        imprint_container sample_host (reader_node, []) (PStr ''chair'') (PStr ''props'')
            [(''representation'', PDict [(''id'', PStr ''rep001'')])] PNone
          = ((node', records'), None)
        \<and> [(''schema'', Value (PStr ''openpype:container-2.0'')),
            (''id'', Value (PStr ''ayon.load.container'')),
            (''name'', Value (PStr ''chair'')),
            (''namespace'', Value (PStr ''props'')),
            (''representation'', Value (PStr ''rep001'')),
            (''loader'', Value (PStr ''None'')),
            (''objectName'', Value (PStr ''ScriptNode.SceneReader'')),
            (''_node'', Node node')]
          \<in> set (get_containers sample_host
              (sample_script\<lparr>script_children := (script_children sample_script)[0 := node']\<rparr>)))"
proof -
  have user: "node_user reader_node = Some Map.empty"
    by (simp add: reader_node_def)
  have rid: "representation_id [(''representation'', PDict [(''id'', PStr ''rep001'')])]
      = Inr (PStr ''rep001'')"
    by (simp add: representation_id_def)
  have len: "0 < length (script_children sample_script)"
    by (simp add: sample_script_def)
  have child: "script_children sample_script ! 0 = reader_node"
    by (simp add: sample_script_def)
  have sample_vals: "AYON_CONTAINER_ID sample_host = ''ayon.load.container''"
    "py_str sample_host (PStr ''chair'') = ''chair''"
    "py_str sample_host (PStr ''props'') = ''props''"
    "py_str sample_host (PStr ''rep001'') = ''rep001''"
    "py_str sample_host PNone = ''None''"
    "node_fullName reader_node = ''ScriptNode.SceneReader''"
    by (simp_all add: sample_host_def simple_str_def reader_node_def)
  from imprint_container_recognized [OF stores_value_sample user rid len child,
      of "[]" "PStr ''chair''" "PStr ''props''" PNone]
  have "\<exists>node' records'.
        imprint_container sample_host (reader_node, []) (PStr ''chair'') (PStr ''props'')
            [(''representation'', PDict [(''id'', PStr ''rep001'')])] PNone
          = ((node', records'), None)
        \<and> [(''schema'', Value (PStr ''openpype:container-2.0'')),
            (''id'', Value (PStr ''ayon.load.container'')),
            (''name'', Value (PStr ''chair'')),
            (''namespace'', Value (PStr ''props'')),
            (''representation'', Value (PStr ''rep001'')),
            (''loader'', Value (PStr ''None'')),
            (''objectName'', Value (PStr ''ScriptNode.SceneReader'')),
            (''_node'', Node node')]
          \<in> set (get_containers sample_host
              (sample_script\<lparr>script_children := (script_children sample_script)[0 := node']\<rparr>))"
    by (simp only: sample_vals)
  with stores_value_sample user rid len child show ?thesis by blast
qed

text \<open>
  Claim C6, as stated, lets \<open>imprint\<close> go on with the remaining keys whenever setting an
  existing plug raises. For a value of a type without a plug class it does not: on a
  node whose \<open>frames\<close> is an integer plug, imprinting a list under \<open>frames\<close> logs the
  warning and then raises \<open>TypeError\<close>; the key \<open>name\<close> after it is never imprinted.
\<close>

theorem imprint_unsupported_aborts:
  "imprint sample_host (frames_node, [])
      [(''frames'', PList [PInt 1001, PInt 1100]), (''name'', PStr ''chair'')] ''Ayon''
     = ((frames_node, [Warning ''chair'' ''frames'' (PList [PInt 1001, PInt 1100])]),
        Some TypeError)
   \<and> setValue sample_host \<lparr>plug_data = IntPlug 24, layout_section = None\<rparr>
         (PList [PInt 1001, PInt 1100]) = None
   \<and> node_user frames_node = Some [''frames'' \<mapsto> \<lparr>plug_data = IntPlug 24, layout_section = None\<rparr>]"
  by (simp add: imprint_def imprint_key_def frames_node_def sample_host_def
      strict_setValue_def new_plug_data_def)

text \<open>
  Claim C6, amended: when a key exists under \<open>node["user"]\<close> and setting its value
  raises, \<open>imprint\<close> logs a warning; for a value that is a \<open>str\<close>, \<open>bool\<close>, \<open>float\<close> or
  \<open>int\<close> it replaces the plug by a new \<open>StringPlug\<close>, \<open>BoolPlug\<close>, \<open>FloatPlug\<close> or
  \<open>IntPlug\<close> holding the value, with the section registered, and goes on with the
  remaining keys; for a list or a tuple it raises \<open>TypeError\<close> after the warning, the
  node as it was.
\<close>

theorem imprint_replaces_plug:
  assumes "node_user node = Some user"
    and "user key = Some p"
    and "setValue h p v = None"
  shows "((v, d) \<in> {(PStr s, StringPlug s), (PBool b, BoolPlug b),
                     (PFloat x, FloatPlug x), (PInt n, IntPlug n)} \<longrightarrow>
          imprint h (node, records) ((key, v) # items) sec
           = imprint h
               (node\<lparr>node_user := Some (user(key \<mapsto>
                   \<lparr>plug_data = d,
                    layout_section = (if sec \<noteq> [] then Some sec else None)\<rparr>))\<rparr>,
                records @ [Warning (node_name node) key v])
               items sec)
       \<and> (v \<in> {PList vs, PTuple vs} \<longrightarrow>
          imprint h (node, records) ((key, v) # items) sec
           = ((node, records @ [Warning (node_name node) key v]), Some TypeError))"
  using assms
  by (auto simp: imprint_def imprint_key_def new_plug_data_def register_section_def)

theorem imprint_replaces_plug_witness:
  "node_user frames_node = Some [''frames'' \<mapsto> \<lparr>plug_data = IntPlug 24, layout_section = None\<rparr>]
   \<and> setValue sample_host \<lparr>plug_data = IntPlug 24, layout_section = None\<rparr> (PStr ''1001-1100'') = None
   \<and> imprint sample_host (frames_node, [])
        [(''frames'', PStr ''1001-1100''), (''name'', PStr ''chair'')] ''Ayon''
      = ((frames_node\<lparr>node_user := Some
            [''frames'' \<mapsto> \<lparr>plug_data = StringPlug ''1001-1100'', layout_section = Some ''Ayon''\<rparr>,
             ''name'' \<mapsto> \<lparr>plug_data = StringPlug ''chair'', layout_section = Some ''Ayon''\<rparr>]\<rparr>,
          [Warning ''chair'' ''frames'' (PStr ''1001-1100'')]), None)
   \<and> setValue sample_host \<lparr>plug_data = IntPlug 24, layout_section = None\<rparr>
        (PTuple [PInt 1001, PInt 1100]) = None
   \<and> imprint sample_host (frames_node, [])
        [(''frames'', PTuple [PInt 1001, PInt 1100]), (''name'', PStr ''chair'')] ''Ayon''
      = ((frames_node, [Warning ''chair'' ''frames'' (PTuple [PInt 1001, PInt 1100])]),
         Some TypeError)"
proof -
  have user: "node_user frames_node
      = Some [''frames'' \<mapsto> \<lparr>plug_data = IntPlug 24, layout_section = None\<rparr>]"
    by (simp add: frames_node_def)
  have plug: "[''frames'' \<mapsto> \<lparr>plug_data = IntPlug 24, layout_section = None\<rparr>] ''frames''
      = Some \<lparr>plug_data = IntPlug 24, layout_section = None\<rparr>"
    by simp
  have raises: "setValue sample_host \<lparr>plug_data = IntPlug 24, layout_section = None\<rparr>
      (PStr ''1001-1100'') = None"
    by (simp add: sample_host_def strict_setValue_def)
  have raises_tuple: "setValue sample_host \<lparr>plug_data = IntPlug 24, layout_section = None\<rparr>
      (PTuple [PInt 1001, PInt 1100]) = None"
    by (simp add: sample_host_def strict_setValue_def)
  have typed: "(PStr ''1001-1100'', StringPlug ''1001-1100'')
      \<in> {(PStr ''1001-1100'', StringPlug ''1001-1100''), (PBool False, BoolPlug False),
          (PFloat 0, FloatPlug 0), (PInt 0, IntPlug 0)}"
    by simp
  have unsupported: "PTuple [PInt 1001, PInt 1100]
      \<in> {PList [PInt 1001, PInt 1100], PTuple [PInt 1001, PInt 1100]}"
    by simp
  have rest: "imprint sample_host
      (frames_node\<lparr>node_user := Some ([''frames'' \<mapsto> \<lparr>plug_data = IntPlug 24, layout_section = None\<rparr>]
          (''frames'' \<mapsto> \<lparr>plug_data = StringPlug ''1001-1100'',
                            layout_section = (if ''Ayon'' \<noteq> [] then Some ''Ayon'' else None)\<rparr>))\<rparr>,
       [] @ [Warning (node_name frames_node) ''frames'' (PStr ''1001-1100'')])
      [(''name'', PStr ''chair'')] ''Ayon''
    = ((frames_node\<lparr>node_user := Some
            [''frames'' \<mapsto> \<lparr>plug_data = StringPlug ''1001-1100'', layout_section = Some ''Ayon''\<rparr>,
             ''name'' \<mapsto> \<lparr>plug_data = StringPlug ''chair'', layout_section = Some ''Ayon''\<rparr>]\<rparr>,
          [Warning ''chair'' ''frames'' (PStr ''1001-1100'')]), None)"
    by (simp add: imprint_def imprint_key_def frames_node_def new_plug_data_def
        register_section_def)
  from imprint_replaces_plug [OF user plug raises,
      where d = "StringPlug ''1001-1100''" and s = "''1001-1100''" and b = False and x = 0
        and n = 0 and records = "[]" and items = "[(''name'', PStr ''chair'')]"
        and sec = "''Ayon''"] typed
  have "imprint sample_host (frames_node, [])
      [(''frames'', PStr ''1001-1100''), (''name'', PStr ''chair'')] ''Ayon''
    = imprint sample_host
      (frames_node\<lparr>node_user := Some ([''frames'' \<mapsto> \<lparr>plug_data = IntPlug 24, layout_section = None\<rparr>]
          (''frames'' \<mapsto> \<lparr>plug_data = StringPlug ''1001-1100'',
                            layout_section = (if ''Ayon'' \<noteq> [] then Some ''Ayon'' else None)\<rparr>))\<rparr>,
       [] @ [Warning (node_name frames_node) ''frames'' (PStr ''1001-1100'')])
      [(''name'', PStr ''chair'')] ''Ayon''"
    by blast
  with rest have replaced: "imprint sample_host (frames_node, [])
      [(''frames'', PStr ''1001-1100''), (''name'', PStr ''chair'')] ''Ayon''
    = ((frames_node\<lparr>node_user := Some
            [''frames'' \<mapsto> \<lparr>plug_data = StringPlug ''1001-1100'', layout_section = Some ''Ayon''\<rparr>,
             ''name'' \<mapsto> \<lparr>plug_data = StringPlug ''chair'', layout_section = Some ''Ayon''\<rparr>]\<rparr>,
          [Warning ''chair'' ''frames'' (PStr ''1001-1100'')]), None)"
    by (simp only:)
  from imprint_replaces_plug [OF user plug raises_tuple,
      where vs = "[PInt 1001, PInt 1100]" and records = "[]"
        and items = "[(''name'', PStr ''chair'')]" and sec = "''Ayon''"] unsupported
  have "imprint sample_host (frames_node, [])
        [(''frames'', PTuple [PInt 1001, PInt 1100]), (''name'', PStr ''chair'')] ''Ayon''
      = ((frames_node, [] @ [Warning (node_name frames_node) ''frames''
            (PTuple [PInt 1001, PInt 1100])]), Some TypeError)"
    by blast
  then have aborted: "imprint sample_host (frames_node, [])
        [(''frames'', PTuple [PInt 1001, PInt 1100]), (''name'', PStr ''chair'')] ''Ayon''
      = ((frames_node, [Warning ''chair'' ''frames'' (PTuple [PInt 1001, PInt 1100])]),
         Some TypeError)"
    by (simp add: frames_node_def)
  from user raises replaced raises_tuple aborted show ?thesis by blast
qed

section \<open>Properties of the context data\<close>




section \<open>Properties of opening a workfile\<close>

lemma on_scene_new_raises: "on_scene_new h script_node \<noteq> (script', None)"
  by (simp add: on_scene_new_def update_root_context_variables_def
      split: prod.splits option.splits)

lemma open_workfile_never_returns: "snd (open_workfile h root_script filepath) \<noteq> Inr result"
  by (auto simp: open_workfile_def on_scene_new_raises split: prod.splits option.splits)

text \<open>
  Claim C5 has \<open>open_workfile\<close> return the path of every file that exists. The code sets
  the \<open>fileName\<close> plug and loads the script, and then calls \<open>_on_scene_new\<close>, which
  calls a function that the module \<open>lib\<close> does not define: for the workfile that exists,
  on a host whose own calls all return, \<open>open_workfile\<close> raises \<open>AttributeError\<close>.
\<close>

theorem open_workfile_existing_raises:
  "os_path_exists sample_host ''/proj/sh010/lighting_v001.gfr''
   \<and> open_workfile sample_host (Some sample_script) ''/proj/sh010/lighting_v001.gfr''
       = (Some (sample_script\<lparr>script_fileName := ''/proj/sh010/lighting_v001.gfr''\<rparr>),
          Inl AttributeError)"
  by (simp add: open_workfile_def on_scene_new_def update_root_context_variables_def
      sample_host_def)

text \<open>
  For a path that does not exist \<open>open_workfile\<close> raises \<open>RuntimeError\<close> and the root
  script is as before.
\<close>

theorem open_workfile_missing:
  "\<not> os_path_exists h filepath \<Longrightarrow>
     open_workfile h root_script filepath = (root_script, Inl RuntimeError)"
  by (simp add: open_workfile_def)

theorem open_workfile_missing_witness:
  "\<not> os_path_exists sample_host ''/proj/sh010/missing.gfr''
   \<and> open_workfile sample_host (Some sample_script) ''/proj/sh010/missing.gfr''
       = (Some sample_script, Inl RuntimeError)"
proof -
  have missing: "\<not> os_path_exists sample_host ''/proj/sh010/missing.gfr''"
    by (simp add: sample_host_def)
  from open_workfile_missing [OF missing, of "Some sample_script"] missing
  show ?thesis by simp
qed

text \<open>
  For a path that exists and a load that returns, the \<open>fileName\<close> plug of the root
  script has been set to the path and the script loaded when \<open>open_workfile\<close> raises.
\<close>

theorem open_workfile_sets_and_loads:
  assumes "os_path_exists h filepath"
    and "script_load h (script\<lparr>script_fileName := filepath\<rparr>) = (loaded, None)"
  shows "\<exists>e. open_workfile h (Some script) filepath
           = (Some (fst (on_scene_new h loaded)), Inl e)"
proof -
  obtain script' r where run: "on_scene_new h loaded = (script', r)"
    by (cases "on_scene_new h loaded")
  with on_scene_new_raises [of h loaded script'] obtain e where "r = Some e"
    by (cases r) auto
  with run assms show ?thesis by (simp add: open_workfile_def)
qed

theorem open_workfile_sets_and_loads_witness:
  "os_path_exists sample_host ''/proj/sh010/lighting_v001.gfr''
   \<and> script_load sample_host (sample_script\<lparr>script_fileName := ''/proj/sh010/lighting_v001.gfr''\<rparr>)
       = (sample_script\<lparr>script_fileName := ''/proj/sh010/lighting_v001.gfr''\<rparr>, None)
   \<and> (\<exists>e. open_workfile sample_host (Some sample_script) ''/proj/sh010/lighting_v001.gfr''
         = (Some (fst (on_scene_new sample_host
               (sample_script\<lparr>script_fileName := ''/proj/sh010/lighting_v001.gfr''\<rparr>))), Inl e))"
proof -
  have there: "os_path_exists sample_host ''/proj/sh010/lighting_v001.gfr''"
    by (simp add: sample_host_def)
  have load: "script_load sample_host
      (sample_script\<lparr>script_fileName := ''/proj/sh010/lighting_v001.gfr''\<rparr>)
      = (sample_script\<lparr>script_fileName := ''/proj/sh010/lighting_v001.gfr''\<rparr>, None)"
    by (simp add: sample_host_def)
  from open_workfile_sets_and_loads [OF there load] there load show ?thesis by blast
qed

section \<open>Properties of the scene loader\<close>

text \<open>
  Claim C8: \<open>switch\<close> is \<open>update\<close>. Where the host accepts the two values, both set the
  \<open>fileName\<close> plug of the container's node to the representation path with every
  backslash replaced by a slash, and the \<open>representation\<close> plug of its \<open>user\<close> compound to
  \<open>str(representation["_id"])\<close>; the rest of the node and of the container is as before.
\<close>

theorem switch_is_update:
  "switch h container repre = update h container repre
   \<and> (get_representation_path h repre = Some path0
        \<and> map_of container ''_node'' = Some (Node node)
        \<and> node_plugs node ''fileName'' = Some p
        \<and> setValue h p (PStr (replace_backslashes path0)) = Some p'
        \<and> node_user node = Some user
        \<and> user ''representation'' = Some q
        \<and> map_of repre ''_id'' = Some i
        \<and> setValue h q (PStr (py_str h i)) = Some q' \<longrightarrow>
      switch h container repre =
        (AList.update ''_node''
           (Node (node\<lparr>node_plugs := (node_plugs node)(''fileName'' \<mapsto> p'),
                       node_user := Some (user(''representation'' \<mapsto> q'))\<rparr>))
           container, None))"
  by (simp add: switch_def update_def set_node_plug_def set_user_plug_def Let_def)

theorem switch_is_update_witness:
  "get_representation_path sample_host windows_representation
       = Some (''C:'' @ backslash # ''geo'' @ backslash # ''chair_v002.abc'')
   \<and> replace_backslashes (''C:'' @ backslash # ''geo'' @ backslash # ''chair_v002.abc'')
       = ''C:/geo/chair_v002.abc''
   \<and> switch sample_host loaded_container windows_representation
       = (AList.update ''_node''
            (Node (loaded_node\<lparr>
               node_plugs := (node_plugs loaded_node)
                 (''fileName'' \<mapsto> string_plug ''C:/geo/chair_v002.abc''),
               node_user := Some ((the (node_user loaded_node))
                 (''representation'' \<mapsto> string_plug ''rep002''))\<rparr>))
            loaded_container, None)
   \<and> update sample_host loaded_container windows_representation
       = switch sample_host loaded_container windows_representation"
proof -
  have path: "get_representation_path sample_host windows_representation
      = Some (''C:'' @ backslash # ''geo'' @ backslash # ''chair_v002.abc'')"
    by (simp add: sample_host_def path_of_representation_def windows_representation_def)
  have slashes: "replace_backslashes (''C:'' @ backslash # ''geo'' @ backslash # ''chair_v002.abc'')
      = ''C:/geo/chair_v002.abc''"
    by (simp add: replace_backslashes_def backslash_def)
  have node: "map_of loaded_container ''_node'' = Some (Node loaded_node)"
    by (simp add: loaded_container_def)
  have file_plug: "node_plugs loaded_node ''fileName'' = Some (string_plug ''/geo/chair_v001.abc'')"
    by (simp add: loaded_node_def)
  have set_file: "setValue sample_host (string_plug ''/geo/chair_v001.abc'')
      (PStr (replace_backslashes (''C:'' @ backslash # ''geo'' @ backslash # ''chair_v002.abc'')))
      = Some (string_plug ''C:/geo/chair_v002.abc'')"
    unfolding slashes by (simp add: sample_host_def strict_setValue_def string_plug_def)
  have user: "node_user loaded_node = Some (the (node_user loaded_node))"
    by (simp add: loaded_node_def)
  have repre_plug: "the (node_user loaded_node) ''representation'' = Some (string_plug ''rep001'')"
    by (simp add: loaded_node_def)
  have id: "map_of windows_representation ''_id'' = Some (PStr ''rep002'')"
    by (simp add: windows_representation_def)
  have set_repre: "setValue sample_host (string_plug ''rep001'')
      (PStr (py_str sample_host (PStr ''rep002''))) = Some (string_plug ''rep002'')"
    by (simp add: sample_host_def strict_setValue_def string_plug_def simple_str_def)
  from switch_is_update [of sample_host loaded_container windows_representation
      "''C:'' @ backslash # ''geo'' @ backslash # ''chair_v002.abc''" loaded_node
      "string_plug ''/geo/chair_v001.abc''" "string_plug ''C:/geo/chair_v002.abc''"
      "the (node_user loaded_node)" "string_plug ''rep001''" "PStr ''rep002''"
      "string_plug ''rep002''"]
    path node file_plug set_file user repre_plug id set_repre
  have "switch sample_host loaded_container windows_representation
       = update sample_host loaded_container windows_representation
    \<and> switch sample_host loaded_container windows_representation
       = (AList.update ''_node''
            (Node (loaded_node\<lparr>
               node_plugs := (node_plugs loaded_node)
                 (''fileName'' \<mapsto> string_plug ''C:/geo/chair_v002.abc''),
               node_user := Some ((the (node_user loaded_node))
                 (''representation'' \<mapsto> string_plug ''rep002''))\<rparr>))
            loaded_container, None)"
    by blast
  then have same: "update sample_host loaded_container windows_representation
       = switch sample_host loaded_container windows_representation"
    and result: "switch sample_host loaded_container windows_representation
       = (AList.update ''_node''
            (Node (loaded_node\<lparr>
               node_plugs := (node_plugs loaded_node)
                 (''fileName'' \<mapsto> string_plug ''C:/geo/chair_v002.abc''),
               node_user := Some ((the (node_user loaded_node))
                 (''representation'' \<mapsto> string_plug ''rep002''))\<rparr>))
            loaded_container, None)"
    by (rule conjunct1 [THEN sym], rule conjunct2)
  from path slashes result same show ?thesis by blast
qed

section \<open>Properties of the node replacement\<close>

lemma rewire_inputs_all:
  assumes "\<forall>dst src. accepts_input h dst src"
  shows "snd (rewire_inputs h sp g ps) = None
       \<and> g_children (fst (rewire_inputs h sp g ps)) = g_children g
       \<and> g_inputs (fst (rewire_inputs h sp g ps)) =
           (case sp of
              None \<Rightarrow> g_inputs g
            | Some s \<Rightarrow> if ps = [] then g_inputs g else (g_inputs g)(s \<mapsto> last ps))"
proof -
  from assms have acc: "\<And>d s. accepts_input h d s" by blast
  show ?thesis
  proof (induction ps arbitrary: g)
    case Nil
    show ?case by (simp split: option.splits)
  next
    case (Cons p ps)
    show ?case
    proof (cases sp)
      case None
      with Cons [of g] show ?thesis by simp
    next
      case (Some s)
      with Cons [of "setInput g s (Some p)"] show ?thesis
        by (auto simp: setInput_def acc)
    qed
  qed
qed

lemma rewire_outputs_all:
  assumes "\<forall>dst src. accepts_input h dst src"
  shows "snd (rewire_outputs h sp g ps) = None
       \<and> g_children (fst (rewire_outputs h sp g ps)) = g_children g
       \<and> g_inputs (fst (rewire_outputs h sp g ps)) =
           (\<lambda>d. if d \<in> set ps then sp else g_inputs g d)"
proof -
  from assms have acc: "\<And>d s. accepts_input h d s" by blast
  show ?thesis
  proof (induction ps arbitrary: g)
    case Nil
    show ?case by simp
  next
    case (Cons p ps)
    from Cons [of "setInput g p sp"] show ?case
      by (auto simp: setInput_def fun_eq_iff acc)
  qed
qed

lemma rewire_Cons:
  assumes "\<forall>dst src. accepts_input h dst src"
  shows "rewire h new_id new_plugs g ((src, ins, outs) # conns) =
     rewire h new_id new_plugs
       (fst (rewire_outputs h (source_of new_id new_plugs src)
          (fst (rewire_inputs h (source_of new_id new_plugs src) g ins)) outs)) conns"
proof -
  let ?sp = "source_of new_id new_plugs src"
  obtain g1 e1 where r1: "rewire_inputs h ?sp g ins = (g1, e1)" by (cases "rewire_inputs h ?sp g ins")
  with rewire_inputs_all [OF assms, of ?sp g ins] have e1: "e1 = None" by simp
  obtain g2 e2 where r2: "rewire_outputs h ?sp g1 outs = (g2, e2)" by (cases "rewire_outputs h ?sp g1 outs")
  with rewire_outputs_all [OF assms, of ?sp g1 outs] have e2: "e2 = None" by simp
  show ?thesis using r1 r2 e1 e2 by (simp add: source_of_def)
qed

lemma rewire_all:
  assumes "\<forall>dst src. accepts_input h dst src"
  shows "snd (rewire h new_id new_plugs g conns) = None
       \<and> g_children (fst (rewire h new_id new_plugs g conns)) = g_children g"
proof (induction conns arbitrary: g)
  case Nil
  show ?case by simp
next
  case (Cons c conns)
  obtain src ins outs where c: "c = (src, ins, outs)" by (cases c)
  show ?case
    unfolding c rewire_Cons [OF assms]
    using Cons rewire_inputs_all [OF assms] rewire_outputs_all [OF assms] by simp
qed

lemma rewire_frame:
  assumes "\<forall>dst src. accepts_input h dst src"
    and "\<forall>(src, ins, outs) \<in> set conns.
           d \<notin> set outs \<and> \<not> (d = (new_id, src) \<and> ins \<noteq> [] \<and> lookup_plug new_plugs src \<noteq> None)"
  shows "g_inputs (fst (rewire h new_id new_plugs g conns)) d = g_inputs g d"
  using assms(2)
proof (induction conns arbitrary: g)
  case Nil
  show ?case by simp
next
  case (Cons c conns)
  obtain src ins outs where c: "c = (src, ins, outs)" by (cases c)
  let ?sp = "source_of new_id new_plugs src"
  let ?g1 = "fst (rewire_inputs h ?sp g ins)"
  let ?g2 = "fst (rewire_outputs h ?sp ?g1 outs)"
  from Cons.prems c have out: "d \<notin> set outs"
    and inp: "\<not> (d = (new_id, src) \<and> ins \<noteq> [] \<and> lookup_plug new_plugs src \<noteq> None)"
    and rest: "\<forall>(src, ins, outs) \<in> set conns.
           d \<notin> set outs \<and> \<not> (d = (new_id, src) \<and> ins \<noteq> [] \<and> lookup_plug new_plugs src \<noteq> None)"
    by auto
  have "g_inputs ?g1 d = g_inputs g d"
    using rewire_inputs_all [OF assms(1), of ?sp g ins] inp
    by (auto simp: source_of_def split: option.splits)
  moreover have "g_inputs ?g2 d = g_inputs ?g1 d"
    using rewire_outputs_all [OF assms(1), of ?sp ?g1 outs] out by simp
  moreover have "g_inputs (fst (rewire h new_id new_plugs ?g2 conns)) d = g_inputs ?g2 d"
    using Cons.IH [OF rest] .
  ultimately show ?case
    unfolding c rewire_Cons [OF assms(1)] by simp
qed

lemma rewire_in:
  assumes "\<forall>dst src. accepts_input h dst src"
    and "(r, ins, outs) \<in> set conns"
    and "ins \<noteq> []"
    and "lookup_plug new_plugs r \<noteq> None"
    and "distinct (map fst conns)"
    and "\<forall>(src, i, os) \<in> set conns. (new_id, r) \<notin> set os"
  shows "g_inputs (fst (rewire h new_id new_plugs g conns)) (new_id, r) = Some (last ins)"
  using assms(2,5,6)
proof (induction conns arbitrary: g)
  case Nil
  then show ?case by simp
next
  case (Cons c conns)
  obtain src ins' outs' where c: "c = (src, ins', outs')" by (cases c)
  let ?sp = "source_of new_id new_plugs src"
  let ?g1 = "fst (rewire_inputs h ?sp g ins')"
  let ?g2 = "fst (rewire_outputs h ?sp ?g1 outs')"
  from Cons.prems c have notout: "(new_id, r) \<notin> set outs'"
    and rest_out: "\<forall>(src, i, os) \<in> set conns. (new_id, r) \<notin> set os"
    and dist: "distinct (map fst conns)" and fresh: "src \<notin> fst ` set conns"
    by auto
  show ?case
  proof (cases "(r, ins, outs) = c")
    case True
    with c have eq: "src = r" "ins' = ins" "outs' = outs" by auto
    have "g_inputs ?g1 (new_id, r) = Some (last ins)"
      using rewire_inputs_all [OF assms(1), of ?sp g ins'] assms(3,4) eq
      by (auto simp: source_of_def)
    moreover have "g_inputs ?g2 (new_id, r) = g_inputs ?g1 (new_id, r)"
      using rewire_outputs_all [OF assms(1), of ?sp ?g1 outs'] notout by simp
    moreover have "g_inputs (fst (rewire h new_id new_plugs ?g2 conns)) (new_id, r)
        = g_inputs ?g2 (new_id, r)"
    proof (rule rewire_frame [OF assms(1)])
      show "\<forall>(src, ins, outs) \<in> set conns. (new_id, r) \<notin> set outs
          \<and> \<not> ((new_id, r) = (new_id, src) \<and> ins \<noteq> [] \<and> lookup_plug new_plugs src \<noteq> None)"
        using rest_out fresh eq by force
    qed
    ultimately show ?thesis
      unfolding c rewire_Cons [OF assms(1)] by simp
  next
    case False
    with Cons.prems(1) have "(r, ins, outs) \<in> set conns" by auto
    from Cons.IH [OF this dist rest_out] show ?thesis
      unfolding c rewire_Cons [OF assms(1)] .
  qed
qed

lemma rewire_out:
  assumes "\<forall>dst src. accepts_input h dst src"
    and "(r, ins, outs) \<in> set conns"
    and "d \<in> set outs"
    and "fst d \<noteq> new_id"
    and "\<forall>(src, i, os) \<in> set conns. d \<in> set os \<longrightarrow> src = r"
    and "distinct (map fst conns)"
  shows "g_inputs (fst (rewire h new_id new_plugs g conns)) d = source_of new_id new_plugs r"
  using assms(2,5,6)
proof (induction conns arbitrary: g)
  case Nil
  then show ?case by simp
next
  case (Cons c conns)
  obtain src ins' outs' where c: "c = (src, ins', outs')" by (cases c)
  let ?sp = "source_of new_id new_plugs src"
  let ?g1 = "fst (rewire_inputs h ?sp g ins')"
  let ?g2 = "fst (rewire_outputs h ?sp ?g1 outs')"
  from Cons.prems c have only: "\<forall>(src, i, os) \<in> set conns. d \<in> set os \<longrightarrow> src = r"
    and head: "d \<in> set outs' \<longrightarrow> src = r"
    and dist: "distinct (map fst conns)" and fresh: "src \<notin> fst ` set conns"
    by auto
  show ?case
  proof (cases "(r, ins, outs) = c")
    case True
    with c have eq: "src = r" "ins' = ins" "outs' = outs" by auto
    have "g_inputs ?g2 d = source_of new_id new_plugs r"
      using rewire_outputs_all [OF assms(1), of ?sp ?g1 outs'] assms(3) eq by simp
    moreover have "g_inputs (fst (rewire h new_id new_plugs ?g2 conns)) d = g_inputs ?g2 d"
    proof (rule rewire_frame [OF assms(1)])
      show "\<forall>(src, ins, outs) \<in> set conns. d \<notin> set outs
          \<and> \<not> (d = (new_id, src) \<and> ins \<noteq> [] \<and> lookup_plug new_plugs src \<noteq> None)"
        using only fresh eq assms(4) by force
    qed
    ultimately show ?thesis
      unfolding c rewire_Cons [OF assms(1)] by simp
  next
    case False
    with Cons.prems(1) have "(r, ins, outs) \<in> set conns" by auto
    from Cons.IH [OF this only dist] show ?thesis
      unfolding c rewire_Cons [OF assms(1)] .
  qed
qed

lemma connections_step_eq:
  "connections_step g node False plugs (path, plug) =
     (if pt_serialisable plug
         \<and> (external_input g node path \<noteq> [] \<or> external_outputs g node path \<noteq> [])
      then AList.update path (external_input g node path, external_outputs g node path) plugs
      else plugs)"
  by (auto simp: connections_step_def external_input_def external_outputs_def Let_def
      split: option.splits)

lemma connections_foldl:
  "distinct (map fst acc) \<Longrightarrow>
   distinct (map fst (foldl (connections_step g node False) acc plugs))
   \<and> map_of (foldl (connections_step g node False) acc plugs) k =
       (if \<exists>plug. (k, plug) \<in> set plugs \<and> pt_serialisable plug
             \<and> (external_input g node k \<noteq> [] \<or> external_outputs g node k \<noteq> [])
        then Some (external_input g node k, external_outputs g node k)
        else map_of acc k)"
proof (induction plugs arbitrary: acc)
  case Nil
  then show ?case by simp
next
  case (Cons e plugs)
  obtain path plug where e: "e = (path, plug)" by (cases e)
  let ?acc = "connections_step g node False acc (path, plug)"
  have dist: "distinct (map fst ?acc)"
    using Cons.prems by (simp add: connections_step_eq distinct_update)
  have look: "map_of ?acc k =
      (if k = path \<and> pt_serialisable plug
          \<and> (external_input g node k \<noteq> [] \<or> external_outputs g node k \<noteq> [])
       then Some (external_input g node k, external_outputs g node k)
       else map_of acc k)"
    by (auto simp: connections_step_eq update_conv')
  from Cons.IH [OF dist] look show ?case
    unfolding e by auto
qed

lemma get_node_connections_distinct:
  "distinct (map fst (get_node_connections g node_id node False))"
  unfolding get_node_connections_def using connections_foldl [of "[]"] by simp

lemma get_node_connections_lookup:
  "map_of (get_node_connections g node_id node False) k =
     (if \<exists>plug. (k, plug) \<in> set (node_all_plugs True node) \<and> pt_serialisable plug
           \<and> (external_input g node_id k \<noteq> [] \<or> external_outputs g node_id k \<noteq> [])
      then Some (external_input g node_id k, external_outputs g node_id k)
      else None)"
proof -
  have "distinct (map fst ([] :: (string list \<times> plug_ref list \<times> plug_ref list) list))"
    by simp
  from connections_foldl [OF this, of g node_id "node_all_plugs True node" k]
  have "map_of (foldl (connections_step g node_id False) [] (node_all_plugs True node)) k =
      (if \<exists>plug. (k, plug) \<in> set (node_all_plugs True node) \<and> pt_serialisable plug
             \<and> (external_input g node_id k \<noteq> [] \<or> external_outputs g node_id k \<noteq> [])
       then Some (external_input g node_id k, external_outputs g node_id k)
       else map_of [] k)"
    by (rule conjunct2)
  then show ?thesis unfolding get_node_connections_def by (simp only: map_of.simps)
qed

lemma get_node_connections_entry:
  assumes "(k, ins, outs) \<in> set (get_node_connections g node_id node False)"
  shows "ins = external_input g node_id k \<and> outs = external_outputs g node_id k"
proof -
  from assms get_node_connections_distinct [of g node_id node]
  have "map_of (get_node_connections g node_id node False) k = Some (ins, outs)"
    by simp
  then show ?thesis
    by (auto simp: get_node_connections_lookup split: if_splits)
qed

lemma external_outputs_iff:
  "d \<in> set (external_outputs g node path) \<longleftrightarrow>
     d \<in> set (all_plug_refs g) \<and> g_inputs g d = Some (node, path) \<and> fst d \<noteq> node"
  by (auto simp: external_outputs_def outputs_def)

lemma map_of_filter_other:
  "k \<noteq> node_id \<Longrightarrow> map_of (filter (\<lambda>(i, node). i \<noteq> node_id) xs) k = map_of xs k"
  by (induction xs) auto

lemma map_of_map_at:
  "map_of (map (\<lambda>(i, node). if i = k then (i, f node) else (i, node)) xs) k
     = map_option f (map_of xs k)"
  by (induction xs) auto

lemma replace_node_result:
  assumes "map_of (g_children g) old_node = Some old"
    and "map_of (g_children g) new_node = Some new"
    and "\<forall>dst src. accepts_input h dst src"
  shows "replace_node h g old_node new_node ignore_plug_names =
     (setName h
        (removeChild
           (set_node_plugs
              (fst (rewire h new_node (gn_plugs new) g (get_node_connections g old_node old False)))
              new_node
              (transfer_values h (gn_plugs new)
                 (collect_plug_data (ignore_plug_names @ [''globals'']) (node_all_plugs True old))))
           old_node)
        new_node (gn_name old), None)"
proof -
  let ?conns = "get_node_connections g old_node old False"
  obtain g1 e1 where r: "rewire h new_node (gn_plugs new) g ?conns = (g1, e1)"
    by (cases "rewire h new_node (gn_plugs new) g ?conns")
  with rewire_all [OF assms(3), of new_node "gn_plugs new" g ?conns] have "e1 = None" by simp
  with r assms(1,2) show ?thesis
    by (simp add: replace_node_def Let_def)
qed

lemma final_inputs:
  "g_inputs (setName h (removeChild (set_node_plugs g1 new_node plugs) old_node) new_node name) d =
     (if fst d = old_node then None
      else (case g_inputs g1 d of
              None \<Rightarrow> None
            | Some s \<Rightarrow> if fst s = old_node then None else Some s))"
  by (simp add: setName_def removeChild_def set_node_plugs_def Let_def)

lemma final_children:
  "g_children (setName h (removeChild (set_node_plugs g1 new_node plugs) old_node) new_node name) =
     (let kept = filter (\<lambda>(i, node). i \<noteq> old_node)
                   (map (\<lambda>(i, node). if i = new_node then (i, node\<lparr>gn_plugs := plugs\<rparr>) else (i, node))
                        (g_children g1));
          siblings = map (\<lambda>(i, node). gn_name node) (filter (\<lambda>(i, node). i \<noteq> new_node) kept);
          name' = (if name \<in> set siblings then unique_name h siblings name else name)
      in map (\<lambda>(i, node). if i = new_node then (i, node\<lparr>gn_name := name'\<rparr>) else (i, node)) kept)"
  by (simp add: setName_def removeChild_def set_node_plugs_def Let_def)

text \<open>
  Claim C7, as stated, has every plug of the old node with an input from outside hand
  that input to the plug of the same name of the new node. \<open>get_node_connections\<close> is
  called without \<open>include_non_serializable\<close> and passes over the plugs that are not
  serialisable: the \<open>mask\<close> plug of the filter reads from the reader, the new node has a
  \<open>mask\<close> plug, and after \<open>replace_node\<close> that plug has no input.
\<close>

theorem replace_node_drops_input:
  "map_of (g_children small_graph) 1
     = Some \<lparr>gn_name = ''filter'',
             gn_plugs = [leaf ''in'' True, leaf ''mask'' False, leaf ''out'' True]\<rparr>
   \<and> g_inputs small_graph (1, [''mask'']) = Some (0, [''out''])
   \<and> lookup_plug [leaf ''in'' True, leaf ''mask'' True, leaf ''out'' True] [''mask'']
       = Some (leaf ''mask'' True)
   \<and> snd (replace_node accepting_host small_graph 1 2 []) = None
   \<and> g_inputs (fst (replace_node accepting_host small_graph 1 2 [])) (2, [''mask'']) = None"
  by (simp add: replace_node_def small_graph_def accepting_host_def leaf_def
      get_node_connections_def node_all_plugs_def connections_step_def outputs_def
      all_plug_refs_def setInput_def removeChild_def setName_def set_node_plugs_def
      collect_plug_data_def Let_def)

text \<open>
  Claim C7, amended: for two child nodes of one script, the new one not reading from
  the old one, and a host that accepts the connections, \<open>replace_node\<close> returns and
  afterwards every plug of the new node whose relative name is that of a serialisable
  plug of the old node with an input from outside the old node has that input, every
  plug outside the old node that read from a serialisable plug of the old node reads
  from the plug of the new node of the same relative name, where the new node has one,
  the old node is no longer in the script, and the new node has the old node's former
  name, no other node of the script having had it.
\<close>

theorem replace_node_preserves_connections:
  assumes old: "map_of (g_children g) old_node = Some old"
    and new: "map_of (g_children g) new_node = Some new"
    and neq: "old_node \<noteq> new_node"
    and accepts: "\<forall>dst src. accepts_input h dst src"
    and indep: "\<forall>path s. g_inputs g (new_node, path) = Some s \<longrightarrow> fst s \<noteq> old_node"
    and names: "\<forall>i node. (i, node) \<in> set (g_children g) \<and> i \<noteq> old_node \<and> i \<noteq> new_node
                  \<longrightarrow> gn_name node \<noteq> gn_name old"
  shows "\<exists>g'. replace_node h g old_node new_node ignore_plug_names = (g', None)
     \<and> (\<forall>path plug q.
          (path, plug) \<in> set (node_all_plugs True old) \<and> pt_serialisable plug
          \<and> g_inputs g (old_node, path) = Some q \<and> fst q \<noteq> old_node
          \<and> lookup_plug (gn_plugs new) path \<noteq> None
          \<longrightarrow> g_inputs g' (new_node, path) = Some q)
     \<and> (\<forall>path plug d.
          (path, plug) \<in> set (node_all_plugs True old) \<and> pt_serialisable plug
          \<and> d \<in> set (all_plug_refs g) \<and> fst d \<noteq> old_node
          \<and> g_inputs g d = Some (old_node, path)
          \<and> lookup_plug (gn_plugs new) path \<noteq> None
          \<longrightarrow> g_inputs g' d = Some (new_node, path))
     \<and> old_node \<notin> fst ` set (g_children g')
     \<and> (\<exists>node'. map_of (g_children g') new_node = Some node' \<and> gn_name node' = gn_name old)"
proof -
  let ?conns = "get_node_connections g old_node old False"
  let ?g1 = "fst (rewire h new_node (gn_plugs new) g ?conns)"
  let ?plugs = "transfer_values h (gn_plugs new)
      (collect_plug_data (ignore_plug_names @ [''globals'']) (node_all_plugs True old))"
  let ?g' = "setName h (removeChild (set_node_plugs ?g1 new_node ?plugs) old_node)
      new_node (gn_name old)"
  have result: "replace_node h g old_node new_node ignore_plug_names = (?g', None)"
    by (rule replace_node_result [OF old new accepts])
  have dist: "distinct (map fst ?conns)" by (rule get_node_connections_distinct)
  have no_new_out: "\<forall>(src, i, os) \<in> set ?conns. \<forall>path. (new_node, path) \<notin> set os"
  proof (clarify)
    fix src i os path
    assume "(src, i, os) \<in> set ?conns" and "(new_node, path) \<in> set os"
    then have "(new_node, path) \<in> set (external_outputs g old_node src)"
      using get_node_connections_entry by blast
    then have "g_inputs g (new_node, path) = Some (old_node, src)"
      by (simp add: external_outputs_iff)
    with indep show False by auto
  qed
  have part_a: "g_inputs ?g' (new_node, path) = Some q"
    if "(path, plug) \<in> set (node_all_plugs True old)" "pt_serialisable plug"
      "g_inputs g (old_node, path) = Some q" "fst q \<noteq> old_node"
      "lookup_plug (gn_plugs new) path \<noteq> None" for path plug q
  proof -
    from that(3,4) have ext: "external_input g old_node path = [q]"
      by (simp add: external_input_def)
    with that(1,2) have "map_of ?conns path = Some ([q], external_outputs g old_node path)"
      by (auto simp: get_node_connections_lookup)
    then have entry: "(path, [q], external_outputs g old_node path) \<in> set ?conns"
      by (rule map_of_SomeD)
    have "g_inputs ?g1 (new_node, path) = Some (last [q])"
      using no_new_out
      by (intro rewire_in [OF accepts entry _ that(5) dist]) auto
    with that(4) neq show ?thesis by (simp add: final_inputs)
  qed
  have part_b: "g_inputs ?g' d = Some (new_node, path)"
    if "(path, plug) \<in> set (node_all_plugs True old)" "pt_serialisable plug"
      "d \<in> set (all_plug_refs g)" "fst d \<noteq> old_node"
      "g_inputs g d = Some (old_node, path)"
      "lookup_plug (gn_plugs new) path \<noteq> None" for path plug d
  proof -
    from that(3,4,5) have mem: "d \<in> set (external_outputs g old_node path)"
      by (simp add: external_outputs_iff)
    then have "external_outputs g old_node path \<noteq> []" by auto
    with that(1,2) have "map_of ?conns path
        = Some (external_input g old_node path, external_outputs g old_node path)"
      by (auto simp: get_node_connections_lookup)
    then have entry: "(path, external_input g old_node path, external_outputs g old_node path)
        \<in> set ?conns"
      by (rule map_of_SomeD)
    have not_new: "fst d \<noteq> new_node"
    proof
      assume "fst d = new_node"
      then have "d = (new_node, snd d)" by (cases d) simp
      with that(5) indep show False by (metis fst_conv)
    qed
    have only: "\<forall>(src, i, os) \<in> set ?conns. d \<in> set os \<longrightarrow> src = path"
    proof (clarify)
      fix src i os
      assume "(src, i, os) \<in> set ?conns" and "d \<in> set os"
      then have "d \<in> set (external_outputs g old_node src)"
        using get_node_connections_entry by blast
      then have "g_inputs g d = Some (old_node, src)"
        by (simp add: external_outputs_iff)
      with that(5) show "src = path" by simp
    qed
    have "g_inputs ?g1 d = source_of new_node (gn_plugs new) path"
      by (rule rewire_out [OF accepts entry mem not_new only dist])
    with that(4,6) neq show ?thesis
      by (auto simp: final_inputs source_of_def)
  qed
  have children1: "g_children ?g1 = g_children g"
    using rewire_all [OF accepts] by simp
  have removed: "old_node \<notin> fst ` set (g_children ?g')"
    by (auto simp: final_children Let_def split: if_splits)
  let ?kept = "filter (\<lambda>(i, node). i \<noteq> old_node)
      (map (\<lambda>(i, node). if i = new_node then (i, node\<lparr>gn_plugs := ?plugs\<rparr>) else (i, node))
           (g_children g))"
  let ?siblings = "map (\<lambda>(i, node). gn_name node) (filter (\<lambda>(i, node). i \<noteq> new_node) ?kept)"
  have free: "gn_name old \<notin> set ?siblings"
  proof
    assume "gn_name old \<in> set ?siblings"
    then obtain i node where "(i, node) \<in> set (g_children g)" "i \<noteq> old_node"
      "i \<noteq> new_node" "gn_name node = gn_name old"
      by (auto split: if_splits)
    with names show False by blast
  qed
  have kept_new: "map_of ?kept new_node = Some (new\<lparr>gn_plugs := ?plugs\<rparr>)"
    using neq new by (simp add: map_of_filter_other map_of_map_at)
  have "map_of (g_children ?g') new_node
      = Some (new\<lparr>gn_plugs := ?plugs, gn_name := gn_name old\<rparr>)"
    using free kept_new
    by (simp add: final_children children1 Let_def map_of_map_at del: set_map map_map)
  then have renamed: "\<exists>node'. map_of (g_children ?g') new_node = Some node'
      \<and> gn_name node' = gn_name old"
    by simp
  from result part_a part_b removed renamed show ?thesis by blast
qed

theorem replace_node_preserves_connections_witness:
  "\<exists>g'. replace_node accepting_host small_graph 1 2 [] = (g', None)
     \<and> g_inputs g' (2, [''in'']) = Some (0, [''out''])
     \<and> g_inputs g' (3, [''in'']) = Some (2, [''out''])
     \<and> 1 \<notin> fst ` set (g_children g')
     \<and> (\<exists>node'. map_of (g_children g') 2 = Some node' \<and> gn_name node' = ''filter'')"
proof -
  let ?old = "\<lparr>gn_name = ''filter'',
      gn_plugs = [leaf ''in'' True, leaf ''mask'' False, leaf ''out'' True]\<rparr>"
  let ?new = "\<lparr>gn_name = ''filter_new'',
      gn_plugs = [leaf ''in'' True, leaf ''mask'' True, leaf ''out'' True]\<rparr>"
  have old: "map_of (g_children small_graph) 1 = Some ?old"
    by (simp add: small_graph_def)
  have new: "map_of (g_children small_graph) 2 = Some ?new"
    by (simp add: small_graph_def)
  have neq: "(1::nat) \<noteq> 2" by simp
  have accepts: "\<forall>dst src. accepts_input accepting_host dst src"
    by (simp add: accepting_host_def)
  have indep: "\<forall>path s. g_inputs small_graph (2, path) = Some s \<longrightarrow> fst s \<noteq> 1"
    by (simp add: small_graph_def)
  have names: "\<forall>i node. (i, node) \<in> set (g_children small_graph) \<and> i \<noteq> 1 \<and> i \<noteq> 2
      \<longrightarrow> gn_name node \<noteq> gn_name ?old"
    by (auto simp: small_graph_def)
  from replace_node_preserves_connections [OF old new neq accepts indep names, of "[]"]
  obtain g' where run: "replace_node accepting_host small_graph 1 2 [] = (g', None)"
    and ins: "\<forall>path plug q.
          (path, plug) \<in> set (node_all_plugs True ?old) \<and> pt_serialisable plug
          \<and> g_inputs small_graph (1, path) = Some q \<and> fst q \<noteq> 1
          \<and> lookup_plug (gn_plugs ?new) path \<noteq> None
          \<longrightarrow> g_inputs g' (2, path) = Some q"
    and outs: "\<forall>path plug d.
          (path, plug) \<in> set (node_all_plugs True ?old) \<and> pt_serialisable plug
          \<and> d \<in> set (all_plug_refs small_graph) \<and> fst d \<noteq> 1
          \<and> g_inputs small_graph d = Some (1, path)
          \<and> lookup_plug (gn_plugs ?new) path \<noteq> None
          \<longrightarrow> g_inputs g' d = Some (2, path)"
    and gone: "1 \<notin> fst ` set (g_children g')"
    and named: "\<exists>node'. map_of (g_children g') 2 = Some node' \<and> gn_name node' = gn_name ?old"
    by blast
  have "([''in''], leaf ''in'' True) \<in> set (node_all_plugs True ?old)
      \<and> pt_serialisable (leaf ''in'' True)
      \<and> g_inputs small_graph (1, [''in'']) = Some (0, [''out'']) \<and> fst (0::nat, [''out'']) \<noteq> 1
      \<and> lookup_plug (gn_plugs ?new) [''in''] \<noteq> None"
    by (simp add: node_all_plugs_def leaf_def small_graph_def)
  with ins have a: "g_inputs g' (2, [''in'']) = Some (0, [''out''])" by blast
  have "([''out''], leaf ''out'' True) \<in> set (node_all_plugs True ?old)
      \<and> pt_serialisable (leaf ''out'' True)
      \<and> (3, [''in'']) \<in> set (all_plug_refs small_graph) \<and> fst (3::nat, [''in'']) \<noteq> 1
      \<and> g_inputs small_graph (3, [''in'']) = Some (1, [''out''])
      \<and> lookup_plug (gn_plugs ?new) [''out''] \<noteq> None"
    by (simp add: node_all_plugs_def leaf_def small_graph_def all_plug_refs_def)
  with outs have b: "g_inputs g' (3, [''in'']) = Some (2, [''out''])" by blast
  from named have c: "\<exists>node'. map_of (g_children g') 2 = Some node' \<and> gn_name node' = ''filter''"
    by simp
  from run a b gone c show ?thesis by blast
qed

end
